theory Spec2Isabelle
  imports Complex_Main "HOL-Library.Word" "HOL-Library.Sublist"
begin

section \<open>The sysmodule client of TriPlayer\<close>

text \<open>
  A shallow embedding of \<^verbatim>\<open>Application/source/sysmodule/Sysmodule.cpp\<close>: the cached
  playback state, the outbound queue of (frame, callback) pairs, the request builders,
  the handshake in \<^verbatim>\<open>reconnect\<close> and the processing loop.

  The members of the class keep their names; the trailing underscore of the source
  (\<^verbatim>\<open>error_\<close>, \<^verbatim>\<open>queue_\<close>) is written \<open>_m\<close>, since a name cannot end in an underscore.
  Integers are those of the build target (LP64): \<^verbatim>\<open>int\<close> has 32 bits, \<^verbatim>\<open>long\<close>,
  \<^verbatim>\<open>unsigned long\<close> and \<^verbatim>\<open>size_t\<close> have 64.
\<close>

subsection \<open>Types of \<^verbatim>\<open>Types.hpp\<close>\<close>

text \<open>
  The scoped enumerations; \<^verbatim>\<open>RepeatMode::Off\<close> is written \<open>RepeatMode_Off\<close>. A song
  identifier (\<^verbatim>\<open>SongID\<close>) is an \<^verbatim>\<open>int\<close>.
\<close>

datatype PlaybackStatus =
  PlaybackStatus_Error | PlaybackStatus_Playing | PlaybackStatus_Paused | PlaybackStatus_Stopped

datatype RepeatMode = RepeatMode_Off | RepeatMode_One | RepeatMode_All

datatype ShuffleMode = ShuffleMode_Off | ShuffleMode_On

definition int_of_RepeatMode :: "RepeatMode \<Rightarrow> int" where
  "int_of_RepeatMode m =
     (case m of RepeatMode_Off \<Rightarrow> 0 | RepeatMode_One \<Rightarrow> 1 | RepeatMode_All \<Rightarrow> 2)"

definition int_of_ShuffleMode :: "ShuffleMode \<Rightarrow> int" where
  "int_of_ShuffleMode m = (case m of ShuffleMode_Off \<Rightarrow> 0 | ShuffleMode_On \<Rightarrow> 1)"

text \<open>The exceptions of \<^verbatim>\<open>std::stoi\<close>, \<^verbatim>\<open>std::stoul\<close> and \<^verbatim>\<open>std::stod\<close>.\<close>

datatype fault = InvalidArgument | OutOfRange

text \<open>
  A \<^verbatim>\<open>double\<close>. The client stores, copies and prints doubles and never computes with
  them, so a finite one is kept as the real number it stands for.
\<close>

datatype double = Finite real | Infinite bool | NaN

subsection \<open>The C library's number parsing and printing\<close>

definition isspace :: "char \<Rightarrow> bool" where
  "isspace c = (c = CHR '' '' \<or> (9 \<le> (of_char c :: nat) \<and> (of_char c :: nat) \<le> 13))"

definition isdigit :: "char \<Rightarrow> bool" where
  "isdigit c = (48 \<le> (of_char c :: nat) \<and> (of_char c :: nat) \<le> 57)"

definition digit_val :: "char \<Rightarrow> nat" where
  "digit_val c = of_char c - 48"

text \<open>The value of the digits read so far, most significant first.\<close>

fun digits_val :: "nat \<Rightarrow> string \<Rightarrow> nat" where
  "digits_val acc [] = acc"
| "digits_val acc (c # cs) = digits_val (acc * 10 + digit_val c) cs"

text \<open>
  The subject sequence of \<^verbatim>\<open>strtol\<close> and \<^verbatim>\<open>strtoul\<close> in base 10: white space is
  skipped, one sign is optional, then come the digits; what follows them is ignored.
  The result is the sign and the magnitude, or \<open>None\<close> when there is no digit (no
  conversion is performed).
\<close>

definition strto_subject :: "string \<Rightarrow> (bool \<times> nat) option" where
  "strto_subject s =
     (let t = dropWhile isspace s;
          neg = (t \<noteq> [] \<and> hd t = CHR ''-'');
          u = (if t \<noteq> [] \<and> (hd t = CHR ''-'' \<or> hd t = CHR ''+'') then tl t else t);
          ds = takeWhile isdigit u
      in if ds = [] then None else Some (neg, digits_val 0 ds))"

definition LONG_MAX :: int where
  "LONG_MAX = 2 ^ 63 - 1"

definition LONG_MIN :: int where
  "LONG_MIN = - (2 ^ 63)"

definition INT_MAX :: int where
  "INT_MAX = 2 ^ 31 - 1"

definition INT_MIN :: int where
  "INT_MIN = - (2 ^ 31)"

definition ULONG_MAX :: nat where
  "ULONG_MAX = 2 ^ 64 - 1"

text \<open>
  \<^verbatim>\<open>strtol(tok, nullptr, 10)\<close>: 0 when no conversion is performed, the nearest bound
  when the value is out of the range of \<^verbatim>\<open>long\<close>.
\<close>

definition strtol :: "string \<Rightarrow> int" where
  "strtol s =
     (case strto_subject s of
        None \<Rightarrow> 0
      | Some (neg, m) \<Rightarrow>
          (let v = (if neg then - int m else int m)
           in if v < LONG_MIN then LONG_MIN else if LONG_MAX < v then LONG_MAX else v))"

text \<open>
  \<^verbatim>\<open>std::stoi\<close>: \<^verbatim>\<open>invalid_argument\<close> when no conversion is performed,
  \<^verbatim>\<open>out_of_range\<close> when the value does not fit \<^verbatim>\<open>long\<close> or \<^verbatim>\<open>int\<close>.
\<close>

definition stoi :: "string \<Rightarrow> fault + int" where
  "stoi s =
     (case strto_subject s of
        None \<Rightarrow> Inl InvalidArgument
      | Some (neg, m) \<Rightarrow>
          (let v = (if neg then - int m else int m)
           in if v < INT_MIN \<or> INT_MAX < v then Inl OutOfRange else Inr v))"

text \<open>
  \<^verbatim>\<open>std::stoul\<close>: as \<^verbatim>\<open>strtoul\<close>, a leading minus sign negates the value in
  unsigned arithmetic; only a magnitude beyond \<^verbatim>\<open>ULONG_MAX\<close> is out of range.
\<close>

definition stoul :: "string \<Rightarrow> fault + 64 word" where
  "stoul s =
     (case strto_subject s of
        None \<Rightarrow> Inl InvalidArgument
      | Some (neg, m) \<Rightarrow>
          if ULONG_MAX < m then Inl OutOfRange
          else Inr (if neg then - (word_of_nat m) else word_of_nat m))"

text \<open>
  Whether \<^verbatim>\<open>strtod\<close> finds a subject sequence: after white space and an optional sign,
  a digit, a point followed by a digit, or one of the words \<^verbatim>\<open>inf\<close> and \<^verbatim>\<open>nan\<close> in
  any case. (A hexadecimal number starts with the digit 0.)
\<close>

definition tolower :: "char \<Rightarrow> char" where
  "tolower c = (if 65 \<le> (of_char c :: nat) \<and> (of_char c :: nat) \<le> 90
                then char_of ((of_char c :: nat) + 32) else c)"

definition strtod_subject :: "string \<Rightarrow> bool" where
  "strtod_subject s =
     (let t = dropWhile isspace s;
          u = (if t \<noteq> [] \<and> (hd t = CHR ''-'' \<or> hd t = CHR ''+'') then tl t else t)
      in case u of
           [] \<Rightarrow> False
         | c # cs \<Rightarrow>
             isdigit c
             \<or> (c = CHR ''.'' \<and> cs \<noteq> [] \<and> isdigit (hd cs))
             \<or> map tolower (take 3 u) = ''inf''
             \<or> map tolower (take 3 u) = ''nan'')"

text \<open>
  \<^verbatim>\<open>std::to_string\<close> of an unsigned and of a signed integer. \<open>digit_char\<close> is only
  applied to numbers below 10.
\<close>

definition digit_char :: "nat \<Rightarrow> char" where
  "digit_char d = ''0123456789'' ! d"

fun nat_digits :: "nat \<Rightarrow> string" where
  "nat_digits n =
     (if n < 10 then [digit_char n]
      else nat_digits (n div 10) @ [digit_char (n mod 10)])"

definition to_string :: "int \<Rightarrow> string" where
  "to_string i = (if i < 0 then CHR ''-'' # nat_digits (nat (- i)) else nat_digits (nat i))"

text \<open>
  \<^verbatim>\<open>strtok\<close> called until it returns the null pointer: the maximal runs of characters
  other than the delimiter, in order. The source passes \<^verbatim>\<open>&Protocol::Delimiter\<close>, the
  address of one character, as the set of delimiters: the set is taken to hold that
  character alone. \<^verbatim>\<open>c_str\<close> ends the text at its first NUL.
\<close>

definition c_str :: "string \<Rightarrow> string" where
  "c_str s = takeWhile (\<lambda>c. c \<noteq> CHR 0x00) s"

function strtok_all :: "char \<Rightarrow> string \<Rightarrow> string list" where
  "strtok_all d s =
     (case dropWhile (\<lambda>c. c = d) s of
        [] \<Rightarrow> []
      | c # cs \<Rightarrow>
          takeWhile (\<lambda>x. x \<noteq> d) (c # cs) # strtok_all d (dropWhile (\<lambda>x. x \<noteq> d) cs))"
  by pat_completeness auto
termination
proof (relation "measure (\<lambda>(d, s). length s)")
  show "wf (measure (\<lambda>(d, s). length s))"
    by simp
next
  fix d :: char and s :: string and c :: char and cs :: string
  assume a: "dropWhile (\<lambda>c. c = d) s = c # cs"
  have "length (dropWhile (\<lambda>x. x \<noteq> d) cs) \<le> length cs"
    by (rule length_dropWhile_le)
  moreover have "length (c # cs) \<le> length s"
    using length_dropWhile_le [of "\<lambda>c. c = d" s] a by simp
  ultimately show "((d, dropWhile (\<lambda>x. x \<noteq> d) cs), (d, s)) \<in> measure (\<lambda>(d, s). length s)"
    by simp
qed

text \<open>The conversion of a \<^verbatim>\<open>long\<close> to \<^verbatim>\<open>SongID\<close>, an \<^verbatim>\<open>int\<close>: the low 32 bits.\<close>

definition to_SongID :: "int \<Rightarrow> int" where
  "to_SongID v = signed_take_bit 31 v"

subsection \<open>What the client takes from headers outside the sources\<close>

text \<open>
  \<^verbatim>\<open>Protocol.hpp\<close> is not among the sources, so its constants are parameters: the
  protocol version, the delimiter, the numbers of the commands and of the enumerators of
  \<^verbatim>\<open>Protocol::Repeat\<close>, \<^verbatim>\<open>Protocol::Shuffle\<close> and \<^verbatim>\<open>Protocol::Status\<close>. So are the
  value \<^verbatim>\<open>strtod\<close> converts a subject sequence to (\<open>None\<close>: a range error) and the
  text \<^verbatim>\<open>std::to_string\<close> prints for a double, and the value a local variable holds
  before its first assignment.
\<close>

datatype Command =
    Command_Version | Command_Reset | Command_Resume | Command_Pause | Command_Previous
  | Command_Next | Command_GetVolume | Command_SetVolume | Command_SetQueueIdx
  | Command_QueueIdx | Command_QueueSize | Command_RemoveFromQueue | Command_GetQueue
  | Command_SetQueue | Command_AddToSubQueue | Command_RemoveFromSubQueue
  | Command_SubQueueSize | Command_GetSubQueue | Command_SkipSubQueueSongs
  | Command_GetRepeat | Command_SetRepeat | Command_GetShuffle | Command_SetShuffle
  | Command_GetSong | Command_GetStatus | Command_GetPosition | Command_SetPosition

record externals =
  Version :: int
  Delimiter :: char
  Command_code :: "Command \<Rightarrow> int"
  Repeat_Off :: int
  Repeat_One :: int
  Repeat_All :: int
  Shuffle_Off :: int
  Status_Error :: int
  Status_Playing :: int
  Status_Paused :: int
  Status_Stopped :: int
  strtod_value :: "string \<Rightarrow> double option"
  to_string_double :: "double \<Rightarrow> string"
  uninitialised_rm :: RepeatMode

text \<open>
  \<^verbatim>\<open>std::stod\<close>: \<^verbatim>\<open>invalid_argument\<close> when there is no subject sequence,
  \<^verbatim>\<open>out_of_range\<close> on a range error.
\<close>

definition stod :: "externals \<Rightarrow> string \<Rightarrow> fault + double" where
  "stod E s =
     (if strtod_subject s
      then (case strtod_value E s of None \<Rightarrow> Inl OutOfRange | Some d \<Rightarrow> Inr d)
      else Inl InvalidArgument)"

text \<open>A frame: the number of the command, then each argument after a delimiter.\<close>

definition frame :: "externals \<Rightarrow> Command \<Rightarrow> string list \<Rightarrow> string" where
  "frame E c args = to_string (Command_code E c) @ concat (map (\<lambda>a. Delimiter E # a) args)"

subsection \<open>The client's state\<close>

text \<open>
  A queued callback is one of the lambdas of the source, named after the function that
  builds it, with the values it captures. The lambdas of \<^verbatim>\<open>waitReset\<close> and
  \<^verbatim>\<open>waitSongIdx\<close> capture the caller's local flag \<^verbatim>\<open>done\<close> by reference: the number
  tells the flags of different calls apart.
\<close>

datatype callback =
    waitReset_cb nat
  | waitSongIdx_cb nat
  | sendResume_cb
  | sendPause_cb
  | sendPrevious_cb
  | sendNext_cb
  | sendGetVolume_cb
  | sendSetVolume_cb
  | sendSetSongIdx_cb
  | sendGetSongIdx_cb
  | sendGetQueueSize_cb
  | sendRemoveFromQueue_cb "64 word"
  | sendGetQueue_cb
  | sendSetQueue_cb "64 word"
  | sendAddToSubQueue_cb int
  | sendRemoveFromSubQueue_cb "64 word"
  | sendGetSubQueueSize_cb
  | sendGetSubQueue_cb
  | sendSkipSubQueueSongs_cb "64 word"
  | sendGetRepeat_cb
  | sendSetRepeat_cb RepeatMode
  | sendGetShuffle_cb
  | sendSetShuffle_cb ShuffleMode
  | sendGetSong_cb
  | sendGetStatus_cb
  | sendGetPosition_cb
  | sendSetPosition_cb

text \<open>
  The members of \<^verbatim>\<open>Sysmodule\<close>, and three components that are not members:
  \<open>done_flags\<close>, the set of the callers' completion flags that have been set; \<open>fired\<close>, the
  callbacks the processing loop has invoked, each with the response it was given, in the
  order of invocation; and \<open>exchanges\<close>, the number of exchanges the processing loop has
  made on the socket.
\<close>

record sysmodule =
  currentSong_m :: int
  error_m :: bool
  exit_m :: bool
  lastUpdateTime :: nat
  position_m :: double
  queue_m :: "int list"
  queueChanged_m :: bool
  queueSize_m :: "64 word"
  repeatMode_m :: RepeatMode
  shuffleMode_m :: ShuffleMode
  socket :: int
  songIdx_m :: "64 word"
  subQueue_m :: "int list"
  subQueueChanged_m :: bool
  subQueueSize_m :: "64 word"
  status_m :: PlaybackStatus
  volume_m :: double
  writeQueue :: "(string \<times> callback) list"
  done_flags :: "nat set"
  fired :: "(callback \<times> string) list"
  exchanges :: nat

subsection \<open>Submitting a request\<close>

definition addToWriteQueue :: "string \<Rightarrow> callback \<Rightarrow> sysmodule \<Rightarrow> sysmodule" where
  "addToWriteQueue s f st =
     (if error_m st then st else st\<lparr>writeQueue := writeQueue st @ [(s, f)]\<rparr>)"

definition size_to_string :: "64 word \<Rightarrow> string" where
  "size_to_string n = nat_digits (unat n)"

definition sendGetQueue :: "externals \<Rightarrow> 64 word \<Rightarrow> 64 word \<Rightarrow> sysmodule \<Rightarrow> sysmodule" where
  "sendGetQueue E s e st =
     addToWriteQueue (frame E Command_GetQueue [size_to_string s, size_to_string e])
       sendGetQueue_cb st"

definition sendGetSubQueue :: "externals \<Rightarrow> 64 word \<Rightarrow> 64 word \<Rightarrow> sysmodule \<Rightarrow> sysmodule" where
  "sendGetSubQueue E s e st =
     addToWriteQueue (frame E Command_GetSubQueue [size_to_string s, size_to_string e])
       sendGetSubQueue_cb st"

subsection \<open>The callbacks\<close>

text \<open>The loop of the callbacks of \<^verbatim>\<open>sendGetQueue\<close> and \<^verbatim>\<open>sendGetSubQueue\<close>.\<close>

definition decode_ids :: "externals \<Rightarrow> string \<Rightarrow> int list" where
  "decode_ids E s = map (\<lambda>tok. to_SongID (strtol tok)) (strtok_all (Delimiter E) (c_str s))"

text \<open>The \<^verbatim>\<open>switch\<close> statements over the enumerators of the protocol.\<close>

definition repeat_of :: "externals \<Rightarrow> int \<Rightarrow> RepeatMode \<Rightarrow> RepeatMode" where
  "repeat_of E v dflt =
     (if v = Repeat_Off E then RepeatMode_Off
      else if v = Repeat_One E then RepeatMode_One
      else if v = Repeat_All E then RepeatMode_All
      else dflt)"

definition status_of :: "externals \<Rightarrow> int \<Rightarrow> PlaybackStatus" where
  "status_of E v =
     (if v = Status_Error E then PlaybackStatus_Error
      else if v = Status_Playing E then PlaybackStatus_Playing
      else if v = Status_Paused E then PlaybackStatus_Paused
      else if v = Status_Stopped E then PlaybackStatus_Stopped
      else PlaybackStatus_Error)"

definition shuffle_of :: "externals \<Rightarrow> int \<Rightarrow> ShuffleMode" where
  "shuffle_of E v = (if v = Shuffle_Off E then ShuffleMode_Off else ShuffleMode_On)"

text \<open>
  A callback applied to a response. \<open>Inl\<close> is the exception a conversion throws; every
  callback converts before it assigns, so nothing has changed when one throws.
\<close>

fun run_callback :: "externals \<Rightarrow> callback \<Rightarrow> string \<Rightarrow> sysmodule \<Rightarrow> fault + sysmodule" where
  "run_callback E (waitReset_cb k) s st = Inr (st\<lparr>done_flags := insert k (done_flags st)\<rparr>)"
| "run_callback E (waitSongIdx_cb k) s st =
     (case stoi s of Inl e \<Rightarrow> Inl e
      | Inr v \<Rightarrow> Inr (st\<lparr>songIdx_m := word_of_int v, done_flags := insert k (done_flags st)\<rparr>))"
| "run_callback E sendResume_cb s st =
     (case stoi s of Inl e \<Rightarrow> Inl e | Inr v \<Rightarrow> Inr (st\<lparr>currentSong_m := v\<rparr>))"
| "run_callback E sendPause_cb s st =
     (case stoi s of Inl e \<Rightarrow> Inl e | Inr v \<Rightarrow> Inr (st\<lparr>currentSong_m := v\<rparr>))"
| "run_callback E sendPrevious_cb s st =
     (case stoi s of Inl e \<Rightarrow> Inl e | Inr v \<Rightarrow> Inr (st\<lparr>currentSong_m := v\<rparr>))"
| "run_callback E sendNext_cb s st =
     (case stoi s of Inl e \<Rightarrow> Inl e | Inr v \<Rightarrow> Inr (st\<lparr>currentSong_m := v\<rparr>))"
| "run_callback E sendGetVolume_cb s st =
     (case stod E s of Inl e \<Rightarrow> Inl e | Inr v \<Rightarrow> Inr (st\<lparr>volume_m := v\<rparr>))"
| "run_callback E sendSetVolume_cb s st =
     (case stod E s of Inl e \<Rightarrow> Inl e | Inr v \<Rightarrow> Inr (st\<lparr>volume_m := v\<rparr>))"
| "run_callback E sendSetSongIdx_cb s st =
     (case stoi s of Inl e \<Rightarrow> Inl e | Inr v \<Rightarrow> Inr (st\<lparr>songIdx_m := word_of_int v\<rparr>))"
| "run_callback E sendGetSongIdx_cb s st =
     (case stoul s of Inl e \<Rightarrow> Inl e
      | Inr tmp \<Rightarrow>
          (let st1 = (if songIdx_m st \<noteq> tmp
                      then sendGetSubQueue E 0 5000 (sendGetQueue E 0 25000 st) else st)
           in Inr (st1\<lparr>songIdx_m := tmp\<rparr>)))"
| "run_callback E sendGetQueueSize_cb s st =
     (case stoul s of Inl e \<Rightarrow> Inl e
      | Inr tmp \<Rightarrow>
          (let st1 = (if queueSize_m st \<noteq> tmp then sendGetQueue E 0 25000 st else st)
           in Inr (st1\<lparr>queueSize_m := tmp\<rparr>)))"
| "run_callback E (sendRemoveFromQueue_cb pos) s st =
     (case stoul s of Inl e \<Rightarrow> Inl e | Inr v \<Rightarrow> Inr st)"
| "run_callback E sendGetQueue_cb s st =
     Inr (st\<lparr>queue_m := decode_ids E s, queueChanged_m := True\<rparr>)"
| "run_callback E (sendSetQueue_cb n) s st =
     (case stoul s of Inl e \<Rightarrow> Inl e | Inr v \<Rightarrow> Inr st)"
| "run_callback E (sendAddToSubQueue_cb i) s st =
     (case stoi s of Inl e \<Rightarrow> Inl e | Inr v \<Rightarrow> Inr st)"
| "run_callback E (sendRemoveFromSubQueue_cb pos) s st =
     (case stoul s of Inl e \<Rightarrow> Inl e | Inr v \<Rightarrow> Inr st)"
| "run_callback E sendGetSubQueueSize_cb s st =
     (case stoul s of Inl e \<Rightarrow> Inl e
      | Inr tmp \<Rightarrow>
          (let st1 = (if subQueueSize_m st \<noteq> tmp then sendGetSubQueue E 0 5000 st else st)
           in Inr (st1\<lparr>subQueueSize_m := tmp\<rparr>)))"
| "run_callback E sendGetSubQueue_cb s st =
     Inr (st\<lparr>subQueue_m := decode_ids E s, subQueueChanged_m := True\<rparr>)"
| "run_callback E (sendSkipSubQueueSongs_cb n) s st =
     (case stoul s of Inl e \<Rightarrow> Inl e | Inr v \<Rightarrow> Inr st)"
| "run_callback E sendGetRepeat_cb s st =
     (case stoi s of Inl e \<Rightarrow> Inl e
      | Inr v \<Rightarrow> Inr (st\<lparr>repeatMode_m := repeat_of E v RepeatMode_Off\<rparr>))"
| "run_callback E (sendSetRepeat_cb m) s st =
     (case stoi s of Inl e \<Rightarrow> Inl e
      | Inr v \<Rightarrow>
          (let rm = repeat_of E v (uninitialised_rm E)
           in if rm \<noteq> m then Inr st else Inr (st\<lparr>repeatMode_m := rm\<rparr>)))"
| "run_callback E sendGetShuffle_cb s st =
     (case stoi s of Inl e \<Rightarrow> Inl e | Inr v \<Rightarrow> Inr (st\<lparr>shuffleMode_m := shuffle_of E v\<rparr>))"
| "run_callback E (sendSetShuffle_cb m) s st =
     (case stoi s of Inl e \<Rightarrow> Inl e
      | Inr v \<Rightarrow>
          (let sm = shuffle_of E v;
               st1 = sendGetQueue E 0 25000 st
           in Inr (st1\<lparr>shuffleMode_m := sm\<rparr>)))"
| "run_callback E sendGetSong_cb s st =
     (case stoi s of Inl e \<Rightarrow> Inl e | Inr v \<Rightarrow> Inr (st\<lparr>currentSong_m := v\<rparr>))"
| "run_callback E sendGetStatus_cb s st =
     (case stoi s of Inl e \<Rightarrow> Inl e | Inr v \<Rightarrow> Inr (st\<lparr>status_m := status_of E v\<rparr>))"
| "run_callback E sendGetPosition_cb s st =
     (case stod E s of Inl e \<Rightarrow> Inl e | Inr v \<Rightarrow> Inr (st\<lparr>position_m := v\<rparr>))"
| "run_callback E sendSetPosition_cb s st =
     (case stod E s of Inl e \<Rightarrow> Inl e | Inr v \<Rightarrow> Inr (st\<lparr>position_m := v\<rparr>))"

text \<open>
  The same callbacks statement by statement: the states the client passes through while
  the callback runs, one for each statement that assigns a member or calls a request
  builder, in the order of the statements. Another thread reading the members while the
  callback runs sees these states, in this order. The last of them is the state
  \<open>run_callback\<close> returns (\<open>run_callback_steps\<close> below); a callback that only compares its
  response passes through none.
\<close>

fun callback_steps ::
  "externals \<Rightarrow> callback \<Rightarrow> string \<Rightarrow> sysmodule \<Rightarrow> fault + sysmodule list" where
  "callback_steps E (waitReset_cb k) s st = Inr [st\<lparr>done_flags := insert k (done_flags st)\<rparr>]"
| "callback_steps E (waitSongIdx_cb k) s st =
     (case stoi s of Inl e \<Rightarrow> Inl e
      | Inr v \<Rightarrow>
          (let st1 = st\<lparr>songIdx_m := word_of_int v\<rparr>
           in Inr [st1, st1\<lparr>done_flags := insert k (done_flags st1)\<rparr>]))"
| "callback_steps E sendResume_cb s st =
     (case stoi s of Inl e \<Rightarrow> Inl e | Inr v \<Rightarrow> Inr [st\<lparr>currentSong_m := v\<rparr>])"
| "callback_steps E sendPause_cb s st =
     (case stoi s of Inl e \<Rightarrow> Inl e | Inr v \<Rightarrow> Inr [st\<lparr>currentSong_m := v\<rparr>])"
| "callback_steps E sendPrevious_cb s st =
     (case stoi s of Inl e \<Rightarrow> Inl e | Inr v \<Rightarrow> Inr [st\<lparr>currentSong_m := v\<rparr>])"
| "callback_steps E sendNext_cb s st =
     (case stoi s of Inl e \<Rightarrow> Inl e | Inr v \<Rightarrow> Inr [st\<lparr>currentSong_m := v\<rparr>])"
| "callback_steps E sendGetVolume_cb s st =
     (case stod E s of Inl e \<Rightarrow> Inl e | Inr v \<Rightarrow> Inr [st\<lparr>volume_m := v\<rparr>])"
| "callback_steps E sendSetVolume_cb s st =
     (case stod E s of Inl e \<Rightarrow> Inl e | Inr v \<Rightarrow> Inr [st\<lparr>volume_m := v\<rparr>])"
| "callback_steps E sendSetSongIdx_cb s st =
     (case stoi s of Inl e \<Rightarrow> Inl e | Inr v \<Rightarrow> Inr [st\<lparr>songIdx_m := word_of_int v\<rparr>])"
| "callback_steps E sendGetSongIdx_cb s st =
     (case stoul s of Inl e \<Rightarrow> Inl e
      | Inr tmp \<Rightarrow>
          if songIdx_m st \<noteq> tmp
          then (let st1 = sendGetQueue E 0 25000 st;
                    st2 = sendGetSubQueue E 0 5000 st1
                in Inr [st1, st2, st2\<lparr>songIdx_m := tmp\<rparr>])
          else Inr [st\<lparr>songIdx_m := tmp\<rparr>])"
| "callback_steps E sendGetQueueSize_cb s st =
     (case stoul s of Inl e \<Rightarrow> Inl e
      | Inr tmp \<Rightarrow>
          if queueSize_m st \<noteq> tmp
          then (let st1 = sendGetQueue E 0 25000 st
                in Inr [st1, st1\<lparr>queueSize_m := tmp\<rparr>])
          else Inr [st\<lparr>queueSize_m := tmp\<rparr>])"
| "callback_steps E (sendRemoveFromQueue_cb pos) s st =
     (case stoul s of Inl e \<Rightarrow> Inl e | Inr v \<Rightarrow> Inr [])"
| "callback_steps E sendGetQueue_cb s st =
     (let ids = decode_ids E s
      in Inr (map (\<lambda>n. st\<lparr>queue_m := take n ids\<rparr>) [0..<Suc (length ids)]
              @ [st\<lparr>queue_m := ids, queueChanged_m := True\<rparr>]))"
| "callback_steps E (sendSetQueue_cb n) s st =
     (case stoul s of Inl e \<Rightarrow> Inl e | Inr v \<Rightarrow> Inr [])"
| "callback_steps E (sendAddToSubQueue_cb i) s st =
     (case stoi s of Inl e \<Rightarrow> Inl e | Inr v \<Rightarrow> Inr [])"
| "callback_steps E (sendRemoveFromSubQueue_cb pos) s st =
     (case stoul s of Inl e \<Rightarrow> Inl e | Inr v \<Rightarrow> Inr [])"
| "callback_steps E sendGetSubQueueSize_cb s st =
     (case stoul s of Inl e \<Rightarrow> Inl e
      | Inr tmp \<Rightarrow>
          if subQueueSize_m st \<noteq> tmp
          then (let st1 = sendGetSubQueue E 0 5000 st
                in Inr [st1, st1\<lparr>subQueueSize_m := tmp\<rparr>])
          else Inr [st\<lparr>subQueueSize_m := tmp\<rparr>])"
| "callback_steps E sendGetSubQueue_cb s st =
     (let ids = decode_ids E s
      in Inr (map (\<lambda>n. st\<lparr>subQueue_m := take n ids\<rparr>) [0..<Suc (length ids)]
              @ [st\<lparr>subQueue_m := ids, subQueueChanged_m := True\<rparr>]))"
| "callback_steps E (sendSkipSubQueueSongs_cb n) s st =
     (case stoul s of Inl e \<Rightarrow> Inl e | Inr v \<Rightarrow> Inr [])"
| "callback_steps E sendGetRepeat_cb s st =
     (case stoi s of Inl e \<Rightarrow> Inl e
      | Inr v \<Rightarrow> Inr [st\<lparr>repeatMode_m := repeat_of E v RepeatMode_Off\<rparr>])"
| "callback_steps E (sendSetRepeat_cb m) s st =
     (case stoi s of Inl e \<Rightarrow> Inl e
      | Inr v \<Rightarrow>
          (let rm = repeat_of E v (uninitialised_rm E)
           in if rm \<noteq> m then Inr [] else Inr [st\<lparr>repeatMode_m := rm\<rparr>]))"
| "callback_steps E sendGetShuffle_cb s st =
     (case stoi s of Inl e \<Rightarrow> Inl e | Inr v \<Rightarrow> Inr [st\<lparr>shuffleMode_m := shuffle_of E v\<rparr>])"
| "callback_steps E (sendSetShuffle_cb m) s st =
     (case stoi s of Inl e \<Rightarrow> Inl e
      | Inr v \<Rightarrow>
          (let sm = shuffle_of E v;
               st1 = sendGetQueue E 0 25000 st
           in Inr [st1, st1\<lparr>shuffleMode_m := sm\<rparr>]))"
| "callback_steps E sendGetSong_cb s st =
     (case stoi s of Inl e \<Rightarrow> Inl e | Inr v \<Rightarrow> Inr [st\<lparr>currentSong_m := v\<rparr>])"
| "callback_steps E sendGetStatus_cb s st =
     (case stoi s of Inl e \<Rightarrow> Inl e | Inr v \<Rightarrow> Inr [st\<lparr>status_m := status_of E v\<rparr>])"
| "callback_steps E sendGetPosition_cb s st =
     (case stod E s of Inl e \<Rightarrow> Inl e | Inr v \<Rightarrow> Inr [st\<lparr>position_m := v\<rparr>])"
| "callback_steps E sendSetPosition_cb s st =
     (case stod E s of Inl e \<Rightarrow> Inl e | Inr v \<Rightarrow> Inr [st\<lparr>position_m := v\<rparr>])"

text \<open>
  \<open>happens_before P Q tr\<close>: in the sequence of states \<open>tr\<close>, \<open>Q\<close> holds at some state and
  \<open>P\<close> holds at a state before the first one at which \<open>Q\<close> holds.
\<close>

definition happens_before ::
  "(sysmodule \<Rightarrow> bool) \<Rightarrow> (sysmodule \<Rightarrow> bool) \<Rightarrow> sysmodule list \<Rightarrow> bool" where
  "happens_before P Q tr =
     (let before = takeWhile (\<lambda>s. \<not> Q s) tr
      in length before < length tr \<and> (\<exists>s \<in> set before. P s))"

text \<open>
  The frames of \<^verbatim>\<open>sendGetQueue(0, 25000)\<close> and \<^verbatim>\<open>sendGetSubQueue(0, 5000)\<close>, written out.
\<close>

definition GetQueue_frame :: "externals \<Rightarrow> string" where
  "GetQueue_frame E =
     to_string (Command_code E Command_GetQueue) @ [Delimiter E] @ ''0'' @ [Delimiter E] @ ''25000''"

definition GetSubQueue_frame :: "externals \<Rightarrow> string" where
  "GetSubQueue_frame E =
     to_string (Command_code E Command_GetSubQueue) @ [Delimiter E] @ ''0'' @ [Delimiter E]
       @ ''5000''"

subsection \<open>The request builders\<close>

text \<open>
  Each builder queues one frame with its callback. \<^verbatim>\<open>waitReset\<close> and \<^verbatim>\<open>waitSongIdx\<close>
  then poll; what they queue is \<open>waitReset_request\<close> and \<open>waitSongIdx_request\<close>, and
  the polling loops follow below. \<open>k\<close> names the caller's flag \<^verbatim>\<open>done\<close>.
\<close>

definition waitReset_request :: "externals \<Rightarrow> nat \<Rightarrow> sysmodule \<Rightarrow> sysmodule" where
  "waitReset_request E k st = addToWriteQueue (frame E Command_Reset []) (waitReset_cb k) st"

definition waitSongIdx_request :: "externals \<Rightarrow> nat \<Rightarrow> sysmodule \<Rightarrow> sysmodule" where
  "waitSongIdx_request E k st =
     addToWriteQueue (frame E Command_QueueIdx []) (waitSongIdx_cb k) st"

definition sendResume :: "externals \<Rightarrow> sysmodule \<Rightarrow> sysmodule" where
  "sendResume E st = addToWriteQueue (frame E Command_Resume []) sendResume_cb st"

definition sendPause :: "externals \<Rightarrow> sysmodule \<Rightarrow> sysmodule" where
  "sendPause E st = addToWriteQueue (frame E Command_Pause []) sendPause_cb st"

definition sendPrevious :: "externals \<Rightarrow> sysmodule \<Rightarrow> sysmodule" where
  "sendPrevious E st = addToWriteQueue (frame E Command_Previous []) sendPrevious_cb st"

definition sendNext :: "externals \<Rightarrow> sysmodule \<Rightarrow> sysmodule" where
  "sendNext E st = addToWriteQueue (frame E Command_Next []) sendNext_cb st"

definition sendGetVolume :: "externals \<Rightarrow> sysmodule \<Rightarrow> sysmodule" where
  "sendGetVolume E st = addToWriteQueue (frame E Command_GetVolume []) sendGetVolume_cb st"

definition sendSetVolume :: "externals \<Rightarrow> double \<Rightarrow> sysmodule \<Rightarrow> sysmodule" where
  "sendSetVolume E v st =
     addToWriteQueue (frame E Command_SetVolume [to_string_double E v]) sendSetVolume_cb st"

definition sendSetSongIdx :: "externals \<Rightarrow> 64 word \<Rightarrow> sysmodule \<Rightarrow> sysmodule" where
  "sendSetSongIdx E i st =
     addToWriteQueue (frame E Command_SetQueueIdx [size_to_string i]) sendSetSongIdx_cb st"

definition sendGetSongIdx :: "externals \<Rightarrow> sysmodule \<Rightarrow> sysmodule" where
  "sendGetSongIdx E st = addToWriteQueue (frame E Command_QueueIdx []) sendGetSongIdx_cb st"

definition sendGetQueueSize :: "externals \<Rightarrow> sysmodule \<Rightarrow> sysmodule" where
  "sendGetQueueSize E st =
     addToWriteQueue (frame E Command_QueueSize []) sendGetQueueSize_cb st"

definition sendRemoveFromQueue :: "externals \<Rightarrow> 64 word \<Rightarrow> sysmodule \<Rightarrow> sysmodule" where
  "sendRemoveFromQueue E pos st =
     addToWriteQueue (frame E Command_RemoveFromQueue [size_to_string pos])
       (sendRemoveFromQueue_cb pos) st"

text \<open>
  \<^verbatim>\<open>sendSetQueue\<close> builds the sequence itself, a delimiter before each identifier, which
  is what \<open>frame\<close> does with its arguments.
\<close>

definition sendSetQueue :: "externals \<Rightarrow> int list \<Rightarrow> sysmodule \<Rightarrow> sysmodule" where
  "sendSetQueue E q st =
     addToWriteQueue (frame E Command_SetQueue (map to_string q))
       (sendSetQueue_cb (word_of_nat (length q))) st"

definition sendAddToSubQueue :: "externals \<Rightarrow> int \<Rightarrow> sysmodule \<Rightarrow> sysmodule" where
  "sendAddToSubQueue E i st =
     addToWriteQueue (frame E Command_AddToSubQueue [to_string i]) (sendAddToSubQueue_cb i) st"

definition sendRemoveFromSubQueue :: "externals \<Rightarrow> 64 word \<Rightarrow> sysmodule \<Rightarrow> sysmodule" where
  "sendRemoveFromSubQueue E pos st =
     addToWriteQueue (frame E Command_RemoveFromSubQueue [size_to_string pos])
       (sendRemoveFromSubQueue_cb pos) st"

definition sendGetSubQueueSize :: "externals \<Rightarrow> sysmodule \<Rightarrow> sysmodule" where
  "sendGetSubQueueSize E st =
     addToWriteQueue (frame E Command_SubQueueSize []) sendGetSubQueueSize_cb st"

definition sendSkipSubQueueSongs :: "externals \<Rightarrow> 64 word \<Rightarrow> sysmodule \<Rightarrow> sysmodule" where
  "sendSkipSubQueueSongs E n st =
     addToWriteQueue (frame E Command_SkipSubQueueSongs [size_to_string n])
       (sendSkipSubQueueSongs_cb n) st"

definition sendGetRepeat :: "externals \<Rightarrow> sysmodule \<Rightarrow> sysmodule" where
  "sendGetRepeat E st = addToWriteQueue (frame E Command_GetRepeat []) sendGetRepeat_cb st"

definition sendSetRepeat :: "externals \<Rightarrow> RepeatMode \<Rightarrow> sysmodule \<Rightarrow> sysmodule" where
  "sendSetRepeat E m st =
     addToWriteQueue (frame E Command_SetRepeat [to_string (int_of_RepeatMode m)])
       (sendSetRepeat_cb m) st"

definition sendGetShuffle :: "externals \<Rightarrow> sysmodule \<Rightarrow> sysmodule" where
  "sendGetShuffle E st = addToWriteQueue (frame E Command_GetShuffle []) sendGetShuffle_cb st"

definition sendSetShuffle :: "externals \<Rightarrow> ShuffleMode \<Rightarrow> sysmodule \<Rightarrow> sysmodule" where
  "sendSetShuffle E m st =
     addToWriteQueue (frame E Command_SetShuffle [to_string (int_of_ShuffleMode m)])
       (sendSetShuffle_cb m) st"

definition sendGetSong :: "externals \<Rightarrow> sysmodule \<Rightarrow> sysmodule" where
  "sendGetSong E st = addToWriteQueue (frame E Command_GetSong []) sendGetSong_cb st"

definition sendGetStatus :: "externals \<Rightarrow> sysmodule \<Rightarrow> sysmodule" where
  "sendGetStatus E st = addToWriteQueue (frame E Command_GetStatus []) sendGetStatus_cb st"

definition sendGetPosition :: "externals \<Rightarrow> sysmodule \<Rightarrow> sysmodule" where
  "sendGetPosition E st =
     addToWriteQueue (frame E Command_GetPosition []) sendGetPosition_cb st"

definition sendSetPosition :: "externals \<Rightarrow> double \<Rightarrow> sysmodule \<Rightarrow> sysmodule" where
  "sendSetPosition E pos st =
     addToWriteQueue (frame E Command_SetPosition [to_string_double E pos]) sendSetPosition_cb
       (st\<lparr>position_m := pos\<rparr>)"

definition exit_request :: "sysmodule \<Rightarrow> sysmodule" where
  "exit_request st = st\<lparr>exit_m := True\<rparr>"

subsection \<open>The accessors\<close>

definition error :: "sysmodule \<Rightarrow> bool" where
  "error st = error_m st"

definition queueChanged :: "sysmodule \<Rightarrow> bool \<times> sysmodule" where
  "queueChanged st =
     (if queueChanged_m st then (True, st\<lparr>queueChanged_m := False\<rparr>) else (False, st))"

definition subQueueChanged :: "sysmodule \<Rightarrow> bool \<times> sysmodule" where
  "subQueueChanged st =
     (if subQueueChanged_m st then (True, st\<lparr>subQueueChanged_m := False\<rparr>) else (False, st))"

subsection \<open>The handshake and the constructor\<close>

text \<open>
  \<^verbatim>\<open>reconnect\<close>: \<open>fd\<close> is the descriptor \<^verbatim>\<open>createSocket\<close> returns and \<open>str\<close> the text
  \<^verbatim>\<open>readFromSocket\<close> returns for the version query (the result of the write is not
  looked at). \<open>Inl\<close> is the exception of \<^verbatim>\<open>std::stoi\<close>, with the state it leaves.
\<close>

definition reconnect ::
  "externals \<Rightarrow> int \<Rightarrow> string \<Rightarrow> sysmodule \<Rightarrow> (fault \<times> sysmodule) + sysmodule" where
  "reconnect E fd str st =
     (let st1 = st\<lparr>socket := fd\<rparr>
      in if str \<noteq> []
         then (case stoi str of
                 Inl e \<Rightarrow> Inl (e, st1)
               | Inr ver \<Rightarrow>
                   if ver \<noteq> Version E then Inr (st1\<lparr>error_m := True\<rparr>)
                   else Inr (st1\<lparr>error_m := False\<rparr>))
         else Inr (st1\<lparr>error_m := True\<rparr>))"

text \<open>
  The assignments of the constructor, before it calls \<^verbatim>\<open>reconnect\<close>. The constructor
  does not assign \<^verbatim>\<open>subQueueSize_\<close>: \<open>unassigned\<close> is the value the member holds without
  an assignment. The containers start empty; \<open>now\<close> is the clock's reading.
\<close>

definition constructed :: "nat \<Rightarrow> 64 word \<Rightarrow> sysmodule" where
  "constructed now unassigned =
     \<lparr>currentSong_m = - 1, error_m = True, exit_m = False, lastUpdateTime = now,
      position_m = Finite 0, queue_m = [], queueChanged_m = False, queueSize_m = 0,
      repeatMode_m = RepeatMode_Off, shuffleMode_m = ShuffleMode_Off, socket = - 1,
      songIdx_m = 0, subQueue_m = [], subQueueChanged_m = False,
      subQueueSize_m = unassigned, status_m = PlaybackStatus_Stopped,
      volume_m = Finite 100, writeQueue = [], done_flags = {}, fired = [], exchanges = 0\<rparr>"

definition Sysmodule ::
  "externals \<Rightarrow> nat \<Rightarrow> 64 word \<Rightarrow> int \<Rightarrow> string \<Rightarrow> fault + sysmodule" where
  "Sysmodule E now unassigned fd str =
     (case reconnect E fd str (constructed now unassigned) of
        Inl (e, st) \<Rightarrow> Inl e
      | Inr st \<Rightarrow> Inr (sendGetSubQueue E 0 5000 (sendGetQueue E 0 25000 st)))"

subsection \<open>The processing loop\<close>

text \<open>
  One round of the inner loop of \<^verbatim>\<open>process\<close>, for the entry at the front of the queue,
  whose callback is \<open>queuedFunc\<close>. The socket's part is \<open>x\<close>: whether \<^verbatim>\<open>writeToSocket\<close>
  succeeds and, if it does, the text \<^verbatim>\<open>readFromSocket\<close> returns. An exception of the
  callback leaves the loop with the state as it is then (\<open>Inl\<close>).
\<close>

definition exchange ::
  "externals \<Rightarrow> bool \<times> string \<Rightarrow> callback \<Rightarrow> sysmodule \<Rightarrow> (fault \<times> sysmodule) + sysmodule" where
  "exchange E x queuedFunc st =
     (let st0 = st\<lparr>exchanges := Suc (exchanges st)\<rparr>
      in if \<not> fst x then Inr (st0\<lparr>error_m := True\<rparr>)
         else if snd x = [] then Inr (st0\<lparr>error_m := True\<rparr>)
         else (let st1 = st0\<lparr>fired := fired st0 @ [(queuedFunc, snd x)]\<rparr>
               in case run_callback E queuedFunc (snd x) st1 of
                    Inl e \<Rightarrow> Inl (e, st1)
                  | Inr st2 \<Rightarrow> Inr (st2\<lparr>writeQueue := tl (writeQueue st2)\<rparr>)))"

definition clear_on_error :: "sysmodule \<Rightarrow> sysmodule" where
  "clear_on_error st = (if error_m st then st\<lparr>writeQueue := []\<rparr> else st)"

definition drain_step ::
  "externals \<Rightarrow> bool \<times> string \<Rightarrow> callback \<Rightarrow> sysmodule \<Rightarrow> (fault \<times> sysmodule) + sysmodule" where
  "drain_step E x queuedFunc st =
     (case exchange E x queuedFunc st of
        Inl t \<Rightarrow> Inl t
      | Inr st' \<Rightarrow> Inr (clear_on_error st'))"

text \<open>
  The entries a callback can add: the polls and \<^verbatim>\<open>sendSetShuffle\<close> queue at most two
  requests for a sequence, whose callbacks queue nothing. This bounds the inner loop.
\<close>

fun cb_weight :: "callback \<Rightarrow> nat" where
  "cb_weight sendGetSongIdx_cb = 3"
| "cb_weight sendGetQueueSize_cb = 3"
| "cb_weight sendGetSubQueueSize_cb = 3"
| "cb_weight (sendSetShuffle_cb m) = 3"
| "cb_weight f = 1"

definition queue_weight :: "(string \<times> callback) list \<Rightarrow> nat" where
  "queue_weight q = sum_list (map (\<lambda>p. cb_weight (snd p)) q)"

text \<open>
  The inner loop, \<^verbatim>\<open>while (!this->writeQueue.empty())\<close>. The socket is \<open>io\<close>: what the
  \<open>n\<close>-th exchange of the loop meets.
\<close>

function drain ::
  "externals \<Rightarrow> (nat \<Rightarrow> bool \<times> string) \<Rightarrow> sysmodule \<Rightarrow> (fault \<times> sysmodule) + sysmodule" where
  "drain E io st =
     (case writeQueue st of
        [] \<Rightarrow> Inr st
      | (fr, queuedFunc) # rest \<Rightarrow>
          (case drain_step E (io (exchanges st)) queuedFunc st of
             Inl t \<Rightarrow> Inl t
           | Inr st' \<Rightarrow> drain E io st'))"
  by pat_completeness auto

lemma run_callback_queue:
  "run_callback E f r st = Inr st' \<Longrightarrow>
     \<exists>new. writeQueue st' = writeQueue st @ new \<and> queue_weight new < cb_weight f"
  by (cases f; auto simp add: addToWriteQueue_def sendGetQueue_def sendGetSubQueue_def queue_weight_def Let_def split: sum.splits if_splits)

lemma cb_weight_pos: "0 < cb_weight f"
  by (cases f) simp_all

lemma drain_step_decreases:
  assumes "writeQueue st = (fr, f) # rest" and "drain_step E x f st = Inr st'"
  shows "queue_weight (writeQueue st') < queue_weight (writeQueue st)"
proof (cases "error_m st'")
  case True
  with assms have "writeQueue st' = []"
    by (auto simp add: drain_step_def clear_on_error_def split: sum.splits if_splits)
  with assms(1) cb_weight_pos [of f] show ?thesis
    by (simp add: queue_weight_def)
next
  case False
  with assms(2) obtain st2 where r: "run_callback E f (snd x) (st\<lparr>exchanges := Suc (exchanges st), fired := fired st @ [(f, snd x)]\<rparr>) = Inr st2"
    and q: "writeQueue st' = tl (writeQueue st2)"
    by (auto simp add: drain_step_def exchange_def clear_on_error_def Let_def split: sum.splits if_splits)
  from run_callback_queue [OF r] obtain new where
    "writeQueue st2 = writeQueue st @ new" and "queue_weight new < cb_weight f"
    by auto
  with q assms(1) show ?thesis
    by (simp add: queue_weight_def)
qed

termination drain
proof (relation "measure (\<lambda>(E, io, st). queue_weight (writeQueue st))")
  show "wf (measure (\<lambda>(E, io, st). queue_weight (writeQueue st)))"
    by simp
next
  fix E :: externals and io :: "nat \<Rightarrow> bool \<times> string" and st :: sysmodule
    and p :: "string \<times> callback" and rest fr queuedFunc st'
  assume "writeQueue st = p # rest" and "(fr, queuedFunc) = p"
    and "drain_step E (io (exchanges st)) queuedFunc st = Inr st'"
  then have "queue_weight (writeQueue st') < queue_weight (writeQueue st)"
    using drain_step_decreases [of st fr queuedFunc rest E "io (exchanges st)" st'] by simp
  then show "((E, io, st'), (E, io, st)) \<in> measure (\<lambda>(E, io, st). queue_weight (writeQueue st))"
    by simp
qed

declare drain.simps [simp del]

text \<open>
  The polls of the refresh, in the order \<^verbatim>\<open>process\<close> sends them, and the new time of the
  last update.
\<close>

definition refresh :: "externals \<Rightarrow> nat \<Rightarrow> sysmodule \<Rightarrow> sysmodule" where
  "refresh E now st =
     (let st1 = sendGetPosition E st;
          st2 = sendGetQueueSize E st1;
          st3 = sendGetRepeat E st2;
          st4 = sendGetShuffle E st3;
          st5 = sendGetSong E st4;
          st6 = sendGetSongIdx E st5;
          st7 = sendGetSubQueueSize E st6;
          st8 = sendGetStatus E st7;
          st9 = sendGetVolume E st8
      in st9\<lparr>lastUpdateTime := now\<rparr>)"

text \<open>
  One round of the outer loop. The clock's part is \<open>tick\<close>: whether more than
  \<^verbatim>\<open>UPDATE_DELAY\<close> has passed since the last update, and the clock's reading. A round
  that finds the error flag set sleeps and does nothing else.
\<close>

definition process_iteration ::
  "externals \<Rightarrow> (nat \<Rightarrow> bool \<times> string) \<Rightarrow> bool \<times> nat \<Rightarrow> sysmodule
     \<Rightarrow> (fault \<times> sysmodule) + sysmodule" where
  "process_iteration E io tick st =
     (if error_m st then Inr st
      else (case drain E io st of
              Inl t \<Rightarrow> Inl t
            | Inr st' \<Rightarrow> Inr (if fst tick then refresh E (snd tick) st' else st')))"

text \<open>
  The outer loop, \<^verbatim>\<open>while (!this->exit_)\<close>, over the rounds for which \<open>ticks\<close> gives the
  clock; it goes on for as long as no caller sets \<^verbatim>\<open>exit_\<close>.
\<close>

fun process ::
  "externals \<Rightarrow> (nat \<Rightarrow> bool \<times> string) \<Rightarrow> (bool \<times> nat) list \<Rightarrow> sysmodule
     \<Rightarrow> (fault \<times> sysmodule) + sysmodule" where
  "process E io [] st = Inr st"
| "process E io (tick # ticks) st =
     (if exit_m st then Inr st
      else (case process_iteration E io tick st of
              Inl t \<Rightarrow> Inl t
            | Inr st' \<Rightarrow> process E io ticks st'))"

subsection \<open>The blocking helpers\<close>

text \<open>
  \<^verbatim>\<open>waitReset\<close> and \<^verbatim>\<open>waitSongIdx\<close> queue a request and then poll the flag \<^verbatim>\<open>done\<close>,
  sleeping between two looks, while the processing loop runs on its own thread.
  \<open>view i\<close> is the client's state as the caller finds it at its \<open>i\<close>-th look. A loop
  that never ends has the value \<open>None\<close>.
\<close>

definition SIZE_MAX :: "64 word" where
  "SIZE_MAX = - 1"

partial_function (option) waitReset_poll :: "(nat \<Rightarrow> sysmodule) \<Rightarrow> nat \<Rightarrow> nat \<Rightarrow> unit option" where
  "waitReset_poll view k i =
     (if k \<in> done_flags (view i) then Some ()
      else waitReset_poll view k (Suc i))"

partial_function (option) waitSongIdx_poll ::
  "(nat \<Rightarrow> sysmodule) \<Rightarrow> nat \<Rightarrow> nat \<Rightarrow> 64 word option" where
  "waitSongIdx_poll view k i =
     (if k \<in> done_flags (view i) then Some (songIdx_m (view i))
      else if error_m (view (Suc i)) then Some SIZE_MAX
      else waitSongIdx_poll view k (Suc i))"

text \<open>
  The state after \<open>i\<close> rounds of the outer loop of \<^verbatim>\<open>process\<close>, and what a caller sees
  of it: after an exception the loop's thread is gone and the state stays as it was left.
\<close>

fun rounds ::
  "externals \<Rightarrow> (nat \<Rightarrow> bool \<times> string) \<Rightarrow> (nat \<Rightarrow> bool \<times> nat) \<Rightarrow> nat \<Rightarrow> sysmodule
     \<Rightarrow> (fault \<times> sysmodule) + sysmodule" where
  "rounds E io tick 0 st = Inr st"
| "rounds E io tick (Suc i) st =
     (case rounds E io tick i st of
        Inl t \<Rightarrow> Inl t
      | Inr st' \<Rightarrow> if exit_m st' then Inr st' else process_iteration E io (tick i) st')"

definition state_of :: "(fault \<times> sysmodule) + sysmodule \<Rightarrow> sysmodule" where
  "state_of r = (case r of Inl (e, st) \<Rightarrow> st | Inr st \<Rightarrow> st)"

text \<open>
  The two helpers called while the processing loop makes one round between two looks
  of the caller.
\<close>

definition waitReset ::
  "externals \<Rightarrow> (nat \<Rightarrow> bool \<times> string) \<Rightarrow> (nat \<Rightarrow> bool \<times> nat) \<Rightarrow> nat \<Rightarrow> sysmodule
     \<Rightarrow> unit option" where
  "waitReset E io tick k st =
     waitReset_poll (\<lambda>i. state_of (rounds E io tick i (waitReset_request E k st))) k 0"

definition waitSongIdx ::
  "externals \<Rightarrow> (nat \<Rightarrow> bool \<times> string) \<Rightarrow> (nat \<Rightarrow> bool \<times> nat) \<Rightarrow> nat \<Rightarrow> sysmodule
     \<Rightarrow> 64 word option" where
  "waitSongIdx E io tick k st =
     waitSongIdx_poll (\<lambda>i. state_of (rounds E io tick i (waitSongIdx_request E k st))) k 0"

subsection \<open>Calls, conversions and an instance of the parameters\<close>

text \<open>A call of a public request builder, with its arguments, and what it does when called.\<close>

datatype request =
    Call_waitReset nat
  | Call_waitSongIdx nat
  | Call_sendResume
  | Call_sendPause
  | Call_sendPrevious
  | Call_sendNext
  | Call_sendGetVolume
  | Call_sendSetVolume double
  | Call_sendSetSongIdx "64 word"
  | Call_sendGetSongIdx
  | Call_sendGetQueueSize
  | Call_sendRemoveFromQueue "64 word"
  | Call_sendGetQueue "64 word" "64 word"
  | Call_sendSetQueue "int list"
  | Call_sendAddToSubQueue int
  | Call_sendRemoveFromSubQueue "64 word"
  | Call_sendGetSubQueueSize
  | Call_sendGetSubQueue "64 word" "64 word"
  | Call_sendSkipSubQueueSongs "64 word"
  | Call_sendGetRepeat
  | Call_sendSetRepeat RepeatMode
  | Call_sendGetShuffle
  | Call_sendSetShuffle ShuffleMode
  | Call_sendGetSong
  | Call_sendGetStatus
  | Call_sendGetPosition
  | Call_sendSetPosition double

fun call :: "externals \<Rightarrow> request \<Rightarrow> sysmodule \<Rightarrow> sysmodule" where
  "call E (Call_waitReset k) st = waitReset_request E k st"
| "call E (Call_waitSongIdx k) st = waitSongIdx_request E k st"
| "call E Call_sendResume st = sendResume E st"
| "call E Call_sendPause st = sendPause E st"
| "call E Call_sendPrevious st = sendPrevious E st"
| "call E Call_sendNext st = sendNext E st"
| "call E Call_sendGetVolume st = sendGetVolume E st"
| "call E (Call_sendSetVolume v) st = sendSetVolume E v st"
| "call E (Call_sendSetSongIdx i) st = sendSetSongIdx E i st"
| "call E Call_sendGetSongIdx st = sendGetSongIdx E st"
| "call E Call_sendGetQueueSize st = sendGetQueueSize E st"
| "call E (Call_sendRemoveFromQueue pos) st = sendRemoveFromQueue E pos st"
| "call E (Call_sendGetQueue s e) st = sendGetQueue E s e st"
| "call E (Call_sendSetQueue q) st = sendSetQueue E q st"
| "call E (Call_sendAddToSubQueue i) st = sendAddToSubQueue E i st"
| "call E (Call_sendRemoveFromSubQueue pos) st = sendRemoveFromSubQueue E pos st"
| "call E Call_sendGetSubQueueSize st = sendGetSubQueueSize E st"
| "call E (Call_sendGetSubQueue s e) st = sendGetSubQueue E s e st"
| "call E (Call_sendSkipSubQueueSongs n) st = sendSkipSubQueueSongs E n st"
| "call E Call_sendGetRepeat st = sendGetRepeat E st"
| "call E (Call_sendSetRepeat m) st = sendSetRepeat E m st"
| "call E Call_sendGetShuffle st = sendGetShuffle E st"
| "call E (Call_sendSetShuffle m) st = sendSetShuffle E m st"
| "call E Call_sendGetSong st = sendGetSong E st"
| "call E Call_sendGetStatus st = sendGetStatus E st"
| "call E Call_sendGetPosition st = sendGetPosition E st"
| "call E (Call_sendSetPosition pos) st = sendSetPosition E pos st"

text \<open>
  The cached playback state: current song, position, volume, status, repeat and shuffle
  mode, the two sizes, the index and the two queues.
\<close>

definition cached ::
  "sysmodule \<Rightarrow> int \<times> double \<times> double \<times> PlaybackStatus \<times> RepeatMode \<times> ShuffleMode
     \<times> 64 word \<times> 64 word \<times> 64 word \<times> int list \<times> int list" where
  "cached st =
     (currentSong_m st, position_m st, volume_m st, status_m st, repeatMode_m st,
      shuffleMode_m st, queueSize_m st, subQueueSize_m st, songIdx_m st, queue_m st,
      subQueue_m st)"

text \<open>
  The conversion a callback starts with, and whether it returns a value for a response:
  a callback throws exactly when its conversion does (\<open>run_callback_returns\<close> below).
\<close>

datatype conversion = By_stoi | By_stoul | By_stod | No_conversion

fun converts :: "callback \<Rightarrow> conversion" where
  "converts (waitReset_cb k) = No_conversion"
| "converts sendGetQueue_cb = No_conversion"
| "converts sendGetSubQueue_cb = No_conversion"
| "converts sendGetVolume_cb = By_stod"
| "converts sendSetVolume_cb = By_stod"
| "converts sendGetPosition_cb = By_stod"
| "converts sendSetPosition_cb = By_stod"
| "converts sendGetSongIdx_cb = By_stoul"
| "converts sendGetQueueSize_cb = By_stoul"
| "converts (sendRemoveFromQueue_cb pos) = By_stoul"
| "converts (sendSetQueue_cb n) = By_stoul"
| "converts (sendRemoveFromSubQueue_cb pos) = By_stoul"
| "converts sendGetSubQueueSize_cb = By_stoul"
| "converts (sendSkipSubQueueSongs_cb n) = By_stoul"
| "converts f = By_stoi"

definition conversion_fault :: "externals \<Rightarrow> callback \<Rightarrow> string \<Rightarrow> fault option" where
  "conversion_fault E f r =
     (case converts f of
        No_conversion \<Rightarrow> None
      | By_stoi \<Rightarrow> (case stoi r of Inl e \<Rightarrow> Some e | Inr v \<Rightarrow> None)
      | By_stoul \<Rightarrow> (case stoul r of Inl e \<Rightarrow> Some e | Inr v \<Rightarrow> None)
      | By_stod \<Rightarrow> (case stod E r of Inl e \<Rightarrow> Some e | Inr v \<Rightarrow> None))"

text \<open>
  An exchange that goes well for the callback \<open>f\<close>: the write succeeds, the response is
  not empty and the callback can convert it.
\<close>

definition exchange_ok :: "externals \<Rightarrow> callback \<Rightarrow> bool \<times> string \<Rightarrow> bool" where
  "exchange_ok E f x = (fst x \<and> snd x \<noteq> [] \<and> conversion_fault E f (snd x) = None)"

text \<open>A sequence of calls of \<^verbatim>\<open>addToWriteQueue\<close>, in order.\<close>

fun enqueue_all :: "(string \<times> callback) list \<Rightarrow> sysmodule \<Rightarrow> sysmodule" where
  "enqueue_all [] st = st"
| "enqueue_all ((s, f) # reqs) st = enqueue_all reqs (addToWriteQueue s f st)"

text \<open>
  Callers and the processing loop taking turns: an event is a call of
  \<^verbatim>\<open>addToWriteQueue\<close> or one round of the inner loop (with nothing to do when the queue
  is empty). The mutex lets a caller in before the inner loop starts, while a callback
  runs and after the loop has ended. \<open>calls es\<close> are the callbacks queued by the calls of
  \<open>es\<close>, in order; \<open>service_order st\<close> are the callbacks invoked so far, in the order of
  invocation, and then those still queued, in the order of the queue.
\<close>

datatype event = Enqueue string callback | Round

fun run_events ::
  "externals \<Rightarrow> (nat \<Rightarrow> bool \<times> string) \<Rightarrow> event list \<Rightarrow> sysmodule
     \<Rightarrow> (fault \<times> sysmodule) + sysmodule" where
  "run_events E io [] st = Inr st"
| "run_events E io (Enqueue s f # es) st = run_events E io es (addToWriteQueue s f st)"
| "run_events E io (Round # es) st =
     (case writeQueue st of
        [] \<Rightarrow> run_events E io es st
      | (fr, queuedFunc) # rest \<Rightarrow>
          (case drain_step E (io (exchanges st)) queuedFunc st of
             Inl t \<Rightarrow> Inl t
           | Inr st' \<Rightarrow> run_events E io es st'))"

fun calls :: "event list \<Rightarrow> callback list" where
  "calls [] = []"
| "calls (Enqueue s f # es) = f # calls es"
| "calls (Round # es) = calls es"

definition service_order :: "sysmodule \<Rightarrow> callback list" where
  "service_order st = map fst (fired st) @ map snd (writeQueue st)"

text \<open>
  A payload of tokens with the delimiter between neighbours, and the delimiters that can
  separate decimal numbers in a C string: not a digit, not the minus sign, not NUL.
\<close>

fun delimited :: "char \<Rightarrow> string list \<Rightarrow> string" where
  "delimited d [] = []"
| "delimited d [t] = t"
| "delimited d (t # u # ts) = t @ d # delimited d (u # ts)"

definition delimiter_ok :: "char \<Rightarrow> bool" where
  "delimiter_ok d = (\<not> isdigit d \<and> d \<noteq> CHR ''-'' \<and> d \<noteq> CHR 0x00)"

text \<open>
  \<open>exchanges_ok E io n q\<close>: the exchanges number \<open>n\<close>, \<open>n + 1\<close>, ... go well for the entries
  of \<open>q\<close>, in order. \<open>invocations io n q\<close>: the callback of each entry of \<open>q\<close> with the
  response of its exchange.
\<close>

fun exchanges_ok ::
  "externals \<Rightarrow> (nat \<Rightarrow> bool \<times> string) \<Rightarrow> nat \<Rightarrow> (string \<times> callback) list \<Rightarrow> bool" where
  "exchanges_ok E io n [] = True"
| "exchanges_ok E io n ((fr, f) # q) = (exchange_ok E f (io n) \<and> exchanges_ok E io (Suc n) q)"

fun invocations ::
  "(nat \<Rightarrow> bool \<times> string) \<Rightarrow> nat \<Rightarrow> (string \<times> callback) list \<Rightarrow> (callback \<times> string) list" where
  "invocations io n [] = []"
| "invocations io n ((fr, f) # q) = (f, snd (io n)) # invocations io (Suc n) q"

text \<open>
  An instance of the parameters, for running the model on concrete inputs: version 1,
  the delimiter \<^verbatim>\<open>0x1C\<close>, and the commands and enumerators numbered from 0 in the order
  written here.
\<close>

definition Command_index :: "Command \<Rightarrow> int" where
  "Command_index c =
     (case c of
        Command_Version \<Rightarrow> 0 | Command_Reset \<Rightarrow> 1 | Command_Resume \<Rightarrow> 2 | Command_Pause \<Rightarrow> 3
      | Command_Previous \<Rightarrow> 4 | Command_Next \<Rightarrow> 5 | Command_GetVolume \<Rightarrow> 6
      | Command_SetVolume \<Rightarrow> 7 | Command_SetQueueIdx \<Rightarrow> 8 | Command_QueueIdx \<Rightarrow> 9
      | Command_QueueSize \<Rightarrow> 10 | Command_RemoveFromQueue \<Rightarrow> 11 | Command_GetQueue \<Rightarrow> 12
      | Command_SetQueue \<Rightarrow> 13 | Command_AddToSubQueue \<Rightarrow> 14
      | Command_RemoveFromSubQueue \<Rightarrow> 15 | Command_SubQueueSize \<Rightarrow> 16
      | Command_GetSubQueue \<Rightarrow> 17 | Command_SkipSubQueueSongs \<Rightarrow> 18
      | Command_GetRepeat \<Rightarrow> 19 | Command_SetRepeat \<Rightarrow> 20 | Command_GetShuffle \<Rightarrow> 21
      | Command_SetShuffle \<Rightarrow> 22 | Command_GetSong \<Rightarrow> 23 | Command_GetStatus \<Rightarrow> 24
      | Command_GetPosition \<Rightarrow> 25 | Command_SetPosition \<Rightarrow> 26)"

definition example_externals :: externals where
  "example_externals =
     \<lparr>Version = 1, Delimiter = CHR 0x1C, Command_code = Command_index,
      Repeat_Off = 0, Repeat_One = 1, Repeat_All = 2, Shuffle_Off = 0,
      Status_Error = 0, Status_Playing = 1, Status_Paused = 2, Status_Stopped = 3,
      strtod_value = (\<lambda>s. Some (Finite 0)), to_string_double = (\<lambda>d. ''0.000000''),
      uninitialised_rm = RepeatMode_Off\<rparr>"

section \<open>Properties\<close>

subsection \<open>Callbacks and the rounds of the inner loop\<close>

lemma run_callback_Inl:
  "run_callback E f r st = Inl e \<longleftrightarrow> conversion_fault E f r = Some e"
  by (cases f; simp add: conversion_fault_def Let_def split: sum.splits)

lemma run_callback_returns:
  "(\<exists>st'. run_callback E f r st = Inr st') \<longleftrightarrow> conversion_fault E f r = None"
  by (cases f; simp add: conversion_fault_def Let_def split: sum.splits)

lemma addToWriteQueue_frame:
  "error_m (addToWriteQueue s f st) = error_m st"
  "exchanges (addToWriteQueue s f st) = exchanges st"
  "fired (addToWriteQueue s f st) = fired st"
  "exit_m (addToWriteQueue s f st) = exit_m st"
  "cached (addToWriteQueue s f st) = cached st"
  "done_flags (addToWriteQueue s f st) = done_flags st"
  by (simp_all add: addToWriteQueue_def cached_def)

lemma run_callback_frame:
  assumes "run_callback E f r st = Inr st'"
  shows "error_m st' = error_m st" and "exchanges st' = exchanges st"
    and "fired st' = fired st" and "exit_m st' = exit_m st"
  using assms
  by (cases f; simp add: addToWriteQueue_def sendGetQueue_def sendGetSubQueue_def Let_def
        split: sum.splits if_splits; fastforce)+

lemma drain_Nil: "writeQueue st = [] \<Longrightarrow> drain E io st = Inr st"
  by (simp add: drain.simps)

lemma drain_Cons:
  "writeQueue st = (fr, f) # rest \<Longrightarrow>
     drain E io st =
       (case drain_step E (io (exchanges st)) f st of Inl t \<Rightarrow> Inl t | Inr st' \<Rightarrow> drain E io st')"
  by (simp add: drain.simps [of E io st])

lemma drain_step_fail:
  assumes "\<not> fst x \<or> snd x = []"
  shows "drain_step E x f st =
           Inr (st\<lparr>exchanges := Suc (exchanges st), error_m := True, writeQueue := []\<rparr>)"
  using assms by (auto simp add: drain_step_def exchange_def clear_on_error_def Let_def)

lemma drain_step_throw:
  assumes "fst x" and "snd x \<noteq> []" and "conversion_fault E f (snd x) = Some e"
  shows "drain_step E x f st =
           Inl (e, st\<lparr>exchanges := Suc (exchanges st), fired := fired st @ [(f, snd x)]\<rparr>)"
proof -
  have "run_callback E f (snd x)
          (st\<lparr>exchanges := Suc (exchanges st), fired := fired st @ [(f, snd x)]\<rparr>) = Inl e"
    using assms(3) by (simp add: run_callback_Inl)
  with assms(1,2) show ?thesis
    by (simp add: drain_step_def exchange_def Let_def)
qed

lemma drain_step_ok:
  assumes ok: "exchange_ok E f x" and ne: "\<not> error_m st"
    and q: "writeQueue st = (fr, f) # rest"
  shows "\<exists>st' new. drain_step E x f st = Inr st' \<and> \<not> error_m st'
           \<and> writeQueue st' = rest @ new
           \<and> fired st' = fired st @ [(f, snd x)]
           \<and> exchanges st' = Suc (exchanges st)"
proof -
  let ?st1 = "st\<lparr>exchanges := Suc (exchanges st), fired := fired st @ [(f, snd x)]\<rparr>"
  from ok have x: "fst x" "snd x \<noteq> []" and c: "conversion_fault E f (snd x) = None"
    by (simp_all add: exchange_ok_def)
  from c obtain st2 where r: "run_callback E f (snd x) ?st1 = Inr st2"
    using run_callback_returns [of E f "snd x" ?st1] by blast
  from run_callback_queue [OF r] obtain new where n: "writeQueue st2 = writeQueue ?st1 @ new"
    by blast
  from run_callback_frame [OF r] ne
  have f: "\<not> error_m st2" "exchanges st2 = Suc (exchanges st)"
    "fired st2 = fired st @ [(f, snd x)]"
    by simp_all
  have "drain_step E x f st = Inr (st2\<lparr>writeQueue := tl (writeQueue st2)\<rparr>)"
    using x r f(1) by (simp add: drain_step_def exchange_def clear_on_error_def Let_def)
  with n q f show ?thesis
    by simp
qed

lemma drain_prefix:
  assumes "writeQueue st = pre @ post" and "\<not> error_m st"
    and "exchanges_ok E io (exchanges st) pre"
  shows "\<exists>st1 new. drain E io st = drain E io st1 \<and> writeQueue st1 = post @ new
           \<and> \<not> error_m st1 \<and> exchanges st1 = exchanges st + length pre
           \<and> fired st1 = fired st @ invocations io (exchanges st) pre"
  using assms
proof (induction pre arbitrary: st post)
  case Nil
  then show ?case
    by (intro exI [of _ st] exI [of _ "[]"]) simp
next
  case (Cons p pre)
  obtain fr f where p: "p = (fr, f)"
    by (cases p)
  from Cons.prems p have q: "writeQueue st = (fr, f) # (pre @ post)"
    and ok: "exchange_ok E f (io (exchanges st))"
    and oks: "exchanges_ok E io (Suc (exchanges st)) pre"
    by simp_all
  from drain_step_ok [OF ok Cons.prems(2) q] obtain st' new where
    s: "drain_step E (io (exchanges st)) f st = Inr st'" and e: "\<not> error_m st'"
    and w: "writeQueue st' = pre @ (post @ new)"
    and fi: "fired st' = fired st @ [(f, snd (io (exchanges st)))]"
    and x: "exchanges st' = Suc (exchanges st)"
    by auto
  from oks x have oks': "exchanges_ok E io (exchanges st') pre"
    by simp
  from Cons.IH [OF w e oks'] obtain st1 new1 where
    d: "drain E io st' = drain E io st1" and w1: "writeQueue st1 = (post @ new) @ new1"
    and e1: "\<not> error_m st1" and x1: "exchanges st1 = exchanges st' + length pre"
    and f1: "fired st1 = fired st' @ invocations io (exchanges st') pre"
    by blast
  have "drain E io st = drain E io st1"
    using drain_Cons [OF q, of E io] s d by simp
  moreover have "writeQueue st1 = post @ (new @ new1)"
    using w1 by simp
  moreover have "exchanges st1 = exchanges st + length (p # pre)"
    using x1 x by simp
  moreover have "fired st1 = fired st @ invocations io (exchanges st) (p # pre)"
    using f1 fi x p by simp
  ultimately show ?case
    using e1 by blast
qed

lemma drain_fired_grows:
  "\<exists>more. fired (state_of (drain E io st)) = fired st @ more"
proof (induction E io st rule: drain.induct)
  case (1 E io st)
  show ?case
  proof (cases "writeQueue st")
    case Nil
    then show ?thesis
      by (simp add: drain_Nil state_of_def)
  next
    case (Cons p rest)
    obtain fr f where p: "p = (fr, f)"
      by (cases p)
    with Cons have q: "writeQueue st = (fr, f) # rest"
      by simp
    show ?thesis
    proof (cases "drain_step E (io (exchanges st)) f st")
      case (Inl t)
      obtain e st' where t: "t = (e, st')"
        by (cases t)
      from Inl t have "fired st' = fired st \<or> fired st' = fired st @ [(f, snd (io (exchanges st)))]"
        by (auto simp add: drain_step_def exchange_def Let_def split: sum.splits if_splits)
      with Inl t q show ?thesis
        by (auto simp add: drain_Cons state_of_def)
    next
      case (Inr st')
      from "1.IH" [OF Cons p [symmetric] Inr] obtain more where
        m: "fired (state_of (drain E io st')) = fired st' @ more"
        by blast
      have "\<exists>m0. fired st' = fired st @ m0"
        using Inr
        by (auto simp add: drain_step_def exchange_def clear_on_error_def Let_def
              split: sum.splits if_splits dest: run_callback_frame(3))
      with m Inr q show ?thesis
        by (auto simp add: drain_Cons)
    qed
  qed
qed

lemma enqueue_all_queue:
  "\<not> error_m st \<Longrightarrow>
     enqueue_all reqs st = st\<lparr>writeQueue := writeQueue st @ reqs\<rparr>"
proof (induction reqs arbitrary: st)
  case Nil
  then show ?case by simp
next
  case (Cons p reqs)
  obtain s f where p: "p = (s, f)"
    by (cases p)
  have "\<not> error_m (addToWriteQueue s f st)"
    using Cons.prems by (simp add: addToWriteQueue_def)
  from Cons.IH [OF this] Cons.prems p show ?case
    by (simp add: addToWriteQueue_def)
qed

lemma process_error: "error_m st \<Longrightarrow> process E io ticks st = Inr st"
  by (induction ticks) (simp_all add: process_iteration_def)

lemma call_error: "error_m st \<Longrightarrow> writeQueue (call E req st) = writeQueue st"
  by (cases req)
    (simp_all add: addToWriteQueue_def waitReset_request_def waitSongIdx_request_def
      sendResume_def sendPause_def sendPrevious_def sendNext_def sendGetVolume_def
      sendSetVolume_def sendSetSongIdx_def sendGetSongIdx_def sendGetQueueSize_def
      sendRemoveFromQueue_def sendGetQueue_def sendSetQueue_def sendAddToSubQueue_def
      sendRemoveFromSubQueue_def sendGetSubQueueSize_def sendGetSubQueue_def
      sendSkipSubQueueSongs_def sendGetRepeat_def sendSetRepeat_def sendGetShuffle_def
      sendSetShuffle_def sendGetSong_def sendGetStatus_def sendGetPosition_def
      sendSetPosition_def)

lemma stoi_Nil: "stoi [] = Inl InvalidArgument"
  by (simp add: stoi_def strto_subject_def)

lemma reconnect_mismatch:
  assumes "str = [] \<or> (\<exists>ver. stoi str = Inr ver \<and> ver \<noteq> Version E)"
  shows "reconnect E fd str st = Inr (st\<lparr>socket := fd, error_m := True\<rparr>)"
  using assms by (auto simp add: reconnect_def Let_def)

lemma reconnect_match:
  assumes "stoi str = Inr (Version E)"
  shows "reconnect E fd str st = Inr (st\<lparr>socket := fd, error_m := False\<rparr>)"
proof -
  from assms have "str \<noteq> []"
    using stoi_Nil by auto
  with assms show ?thesis
    by (simp add: reconnect_def Let_def)
qed

lemmas conversion_defs =
  stoi_def stoul_def strtol_def strto_subject_def isspace_def isdigit_def digit_val_def
  INT_MIN_def INT_MAX_def LONG_MIN_def LONG_MAX_def ULONG_MAX_def

lemma Sysmodule_example:
  "Sysmodule example_externals 0 0 3 ''1''
     = Inr (sendGetSubQueue example_externals 0 5000
             (sendGetQueue example_externals 0 25000
               ((constructed 0 0)\<lparr>socket := 3, error_m := False\<rparr>)))"
  by (simp add: Sysmodule_def reconnect_def conversion_defs example_externals_def)

lemma size_to_string_0: "size_to_string 0 = ''0''"
  by (simp add: size_to_string_def digit_char_def)

lemma size_to_string_25000: "size_to_string 25000 = ''25000''"
  by (simp add: size_to_string_def digit_char_def)

lemma size_to_string_5000: "size_to_string 5000 = ''5000''"
  by (simp add: size_to_string_def digit_char_def)

lemma run_callback_steps:
  "run_callback E f s st
     = (case callback_steps E f s st of Inl e \<Rightarrow> Inl e | Inr tr \<Rightarrow> Inr (last (st # tr)))"
  by (cases f; simp add: Let_def split: sum.splits)

lemma sendGetQueue_entry:
  "\<not> error_m st \<Longrightarrow>
     sendGetQueue E 0 25000 st
       = st\<lparr>writeQueue := writeQueue st @ [(GetQueue_frame E, sendGetQueue_cb)]\<rparr>"
  by (simp add: sendGetQueue_def addToWriteQueue_def frame_def GetQueue_frame_def
        size_to_string_0 size_to_string_25000)

lemma sendGetSubQueue_entry:
  "\<not> error_m st \<Longrightarrow>
     sendGetSubQueue E 0 5000 st
       = st\<lparr>writeQueue := writeQueue st @ [(GetSubQueue_frame E, sendGetSubQueue_cb)]\<rparr>"
  by (simp add: sendGetSubQueue_def addToWriteQueue_def frame_def GetSubQueue_frame_def
        size_to_string_0 size_to_string_5000)

lemma GetQueue_frame_example:
  "GetQueue_frame example_externals
     = [CHR ''1'', CHR ''2'', CHR 0x1C, CHR ''0'', CHR 0x1C,
        CHR ''2'', CHR ''5'', CHR ''0'', CHR ''0'', CHR ''0'']"
  by (simp add: GetQueue_frame_def example_externals_def Command_index_def to_string_def
        nat_digits.simps digit_char_def)

lemma GetSubQueue_frame_example:
  "GetSubQueue_frame example_externals
     = [CHR ''1'', CHR ''7'', CHR 0x1C, CHR ''0'', CHR 0x1C,
        CHR ''5'', CHR ''0'', CHR ''0'', CHR ''0'']"
  by (simp add: GetSubQueue_frame_def example_externals_def Command_index_def to_string_def
        nat_digits.simps digit_char_def)

lemmas send_defs =
  waitReset_request_def waitSongIdx_request_def
  sendResume_def sendPause_def sendPrevious_def sendNext_def sendGetVolume_def
  sendSetVolume_def sendSetSongIdx_def sendGetSongIdx_def sendGetQueueSize_def
  sendRemoveFromQueue_def sendGetQueue_def sendSetQueue_def sendAddToSubQueue_def
  sendRemoveFromSubQueue_def sendGetSubQueueSize_def sendGetSubQueue_def
  sendSkipSubQueueSongs_def sendGetRepeat_def sendSetRepeat_def sendGetShuffle_def
  sendSetShuffle_def sendGetSong_def sendGetStatus_def sendGetPosition_def
  sendSetPosition_def

lemma call_cached:
  "(\<forall>pos. req \<noteq> Call_sendSetPosition pos) \<Longrightarrow> cached (call E req st) = cached st"
  by (cases req) (simp_all add: send_defs addToWriteQueue_frame(5))

lemma sendSetPosition_cached:
  "cached (sendSetPosition E pos st) = cached (st\<lparr>position_m := pos\<rparr>)"
  by (simp add: sendSetPosition_def addToWriteQueue_def cached_def)

lemma cached_lastUpdateTime: "cached (st\<lparr>lastUpdateTime := now\<rparr>) = cached st"
  by (simp add: cached_def)

lemma refresh_cached: "cached (refresh E now st) = cached st"
  by (simp add: refresh_def Let_def send_defs addToWriteQueue_frame(5) cached_lastUpdateTime)

lemma reconnect_cached: "cached (state_of (reconnect E fd str st)) = cached st"
  by (simp add: reconnect_def Let_def state_of_def cached_def split: sum.splits)

lemma Sysmodule_Inr:
  assumes "Sysmodule E now unassigned fd str = Inr st"
  shows "st = sendGetSubQueue E 0 5000 (sendGetQueue E 0 25000
                ((constructed now unassigned)
                   \<lparr>socket := fd, error_m := (stoi str \<noteq> Inr (Version E))\<rparr>))"
proof (cases "stoi str = Inr (Version E)")
  case True
  from reconnect_match [OF True, of fd "constructed now unassigned"] assms True
  show ?thesis
    by (simp add: Sysmodule_def)
next
  case False
  have "str = [] \<or> (\<exists>ver. stoi str = Inr ver \<and> ver \<noteq> Version E)"
  proof (cases "stoi str")
    case (Inl e)
    with assms show ?thesis
      by (auto simp add: Sysmodule_def reconnect_def Let_def split: if_splits)
  next
    case (Inr ver)
    with False show ?thesis
      by simp
  qed
  from reconnect_mismatch [OF this, of fd "constructed now unassigned"] assms False
  show ?thesis
    by (simp add: Sysmodule_def)
qed

lemma drain_throw:
  assumes q: "writeQueue st = pre @ (fr, f) # post" and n: "\<not> error_m st"
    and ok: "exchanges_ok E io (exchanges st) pre"
    and x: "io (exchanges st + length pre) = (True, r)" and r: "r \<noteq> []"
    and c: "conversion_fault E f r = Some e"
  shows "\<exists>st1 new. drain E io st
             = Inl (e, st1\<lparr>exchanges := Suc (exchanges st1), fired := fired st1 @ [(f, r)]\<rparr>)
           \<and> \<not> error_m st1 \<and> writeQueue st1 = (fr, f) # post @ new
           \<and> fired st1 = fired st @ invocations io (exchanges st) pre
           \<and> (pre = [] \<longrightarrow> st1 = st)"
proof (cases pre)
  case Nil
  with q have q': "writeQueue st = (fr, f) # post"
    by simp
  from x Nil have x': "io (exchanges st) = (True, r)"
    by simp
  have "drain_step E (io (exchanges st)) f st
          = Inl (e, st\<lparr>exchanges := Suc (exchanges st), fired := fired st @ [(f, r)]\<rparr>)"
    using drain_step_throw [of "io (exchanges st)" E f e st] x' r c by simp
  then have "drain E io st
          = Inl (e, st\<lparr>exchanges := Suc (exchanges st), fired := fired st @ [(f, r)]\<rparr>)"
    using drain_Cons [OF q', of E io] by simp
  with n q' Nil show ?thesis
    by (intro exI [of _ st] exI [of _ "[]"]) simp
next
  case (Cons p ps)
  from drain_prefix [OF q n ok] obtain st1 new where
    d: "drain E io st = drain E io st1" and w: "writeQueue st1 = ((fr, f) # post) @ new"
    and n1: "\<not> error_m st1" and x1: "exchanges st1 = exchanges st + length pre"
    and f1: "fired st1 = fired st @ invocations io (exchanges st) pre"
    by blast
  from w have q1: "writeQueue st1 = (fr, f) # (post @ new)"
    by simp
  from x x1 have x': "io (exchanges st1) = (True, r)"
    by simp
  have "drain_step E (io (exchanges st1)) f st1
          = Inl (e, st1\<lparr>exchanges := Suc (exchanges st1), fired := fired st1 @ [(f, r)]\<rparr>)"
    using drain_step_throw [of "io (exchanges st1)" E f e st1] x' r c by simp
  then have "drain E io st1
          = Inl (e, st1\<lparr>exchanges := Suc (exchanges st1), fired := fired st1 @ [(f, r)]\<rparr>)"
    using drain_Cons [OF q1, of E io] by simp
  with d n1 q1 f1 Cons show ?thesis
    by (intro exI [of _ st1] exI [of _ new]) simp
qed

lemma drain_step_error_mono:
  assumes "drain_step E x f st = Inr st'" and "error_m st"
  shows "error_m st'"
  using assms
  by (auto simp add: drain_step_def exchange_def clear_on_error_def Let_def
        split: sum.splits if_splits dest: run_callback_frame(1))

lemma run_events_error_mono:
  assumes "run_events E io es st = Inr st'" and "error_m st"
  shows "error_m st'"
  using assms
proof (induction E io es st rule: run_events.induct)
  case (1 E io st)
  then show ?case by simp
next
  case (2 E io s f es st)
  then show ?case
    by (simp add: addToWriteQueue_def)
next
  case (3 E io es st)
  show ?case
  proof (cases "writeQueue st")
    case Nil
    with 3 show ?thesis by simp
  next
    case (Cons p rest)
    obtain fr f where p: "p = (fr, f)"
      by (cases p)
    from "3.prems"(1) Cons p obtain st1 where
      s: "drain_step E (io (exchanges st)) f st = Inr st1"
      and r: "run_events E io es st1 = Inr st'"
      by (auto split: sum.splits)
    from drain_step_error_mono [OF s "3.prems"(2)] have "error_m st1" .
    with "3.IH"(2) [OF Cons p [symmetric] s r] show ?thesis .
  qed
qed

lemma drain_step_clear:
  assumes q: "writeQueue st = (fr, f) # rest"
    and s: "drain_step E x f st = Inr st'" and n: "\<not> error_m st'"
  shows "\<exists>more. service_order st' = service_order st @ more"
proof -
  let ?st1 = "st\<lparr>exchanges := Suc (exchanges st), fired := fired st @ [(f, snd x)]\<rparr>"
  from s n obtain st2 where r: "run_callback E f (snd x) ?st1 = Inr st2"
    and e: "st' = st2\<lparr>writeQueue := tl (writeQueue st2)\<rparr>"
    by (auto simp add: drain_step_def exchange_def clear_on_error_def Let_def
          split: sum.splits if_splits)
  from run_callback_queue [OF r] obtain new where "writeQueue st2 = writeQueue ?st1 @ new"
    by blast
  with q e run_callback_frame(3) [OF r] have "service_order st' = service_order st @ map snd new"
    by (simp add: service_order_def)
  then show ?thesis
    by blast
qed

lemma run_events_order:
  assumes "run_events E io es st = Inr st'" and "\<not> error_m st'"
  shows "\<exists>more. service_order st' = service_order st @ more \<and> subseq (calls es) more"
  using assms
proof (induction E io es st rule: run_events.induct)
  case (1 E io st)
  then show ?case by simp
next
  case (2 E io s f es st)
  let ?st1 = "addToWriteQueue s f st"
  from "2.prems" have r: "run_events E io es ?st1 = Inr st'"
    by simp
  have "\<not> error_m ?st1"
    using run_events_error_mono [OF r] "2.prems"(2) by blast
  then have o: "service_order ?st1 = service_order st @ [f]"
    by (simp add: addToWriteQueue_def service_order_def split: if_splits)
  from "2.IH" [OF r "2.prems"(2)] obtain more where
    "service_order st' = service_order ?st1 @ more" and "subseq (calls es) more"
    by blast
  with o have "service_order st' = service_order st @ (f # more)
      \<and> subseq (calls (Enqueue s f # es)) (f # more)"
    by simp
  then show ?case ..
next
  case (3 E io es st)
  show ?case
  proof (cases "writeQueue st")
    case Nil
    with 3 show ?thesis by simp
  next
    case (Cons p rest)
    obtain fr f where p: "p = (fr, f)"
      by (cases p)
    from "3.prems"(1) Cons p obtain st1 where
      s: "drain_step E (io (exchanges st)) f st = Inr st1"
      and r: "run_events E io es st1 = Inr st'"
      by (auto split: sum.splits)
    have n1: "\<not> error_m st1"
      using run_events_error_mono [OF r] "3.prems"(2) by blast
    from Cons p have q: "writeQueue st = (fr, f) # rest"
      by simp
    from drain_step_clear [OF q s n1] obtain new where
      o: "service_order st1 = service_order st @ new"
      by blast
    from "3.IH"(2) [OF Cons p [symmetric] s r "3.prems"(2)] obtain more where
      m: "service_order st' = service_order st1 @ more" and u: "subseq (calls es) more"
      by blast
    from u have "subseq (calls (Round # es)) (new @ more)"
      by (simp add: list_emb_append2)
    with o m have "service_order st' = service_order st @ (new @ more)
        \<and> subseq (calls (Round # es)) (new @ more)"
      by simp
    then show ?thesis ..
  qed
qed

lemma drain_front_fail:
  assumes "writeQueue st = (fr, f) # rest"
    and "\<not> fst (io (exchanges st)) \<or> snd (io (exchanges st)) = []"
  shows "drain E io st
           = Inr (st\<lparr>exchanges := Suc (exchanges st), error_m := True, writeQueue := []\<rparr>)"
proof -
  let ?st' = "st\<lparr>exchanges := Suc (exchanges st), error_m := True, writeQueue := []\<rparr>"
  have "drain_step E (io (exchanges st)) f st = Inr ?st'"
    using assms(2) by (rule drain_step_fail)
  then have "drain E io st = drain E io ?st'"
    using drain_Cons [OF assms(1), of E io] by simp
  also have "\<dots> = Inr ?st'"
    by (rule drain_Nil) simp
  finally show ?thesis .
qed

lemma refresh_error:
  "error_m st \<Longrightarrow> refresh E now st = st\<lparr>lastUpdateTime := now\<rparr>"
  by (simp add: refresh_def Let_def send_defs addToWriteQueue_def)

lemma process_iteration_empty_response:
  assumes "writeQueue st = (fr, f) # rest" and "\<not> error_m st"
    and "io (exchanges st) = (True, [])"
  shows "\<exists>st'. process_iteration E io tick st = Inr st' \<and> error_m st' \<and> writeQueue st' = []
           \<and> queue_m st' = queue_m st \<and> subQueue_m st' = subQueue_m st
           \<and> queueChanged_m st' = queueChanged_m st
           \<and> subQueueChanged_m st' = subQueueChanged_m st \<and> fired st' = fired st"
proof -
  have "drain E io st
          = Inr (st\<lparr>exchanges := Suc (exchanges st), error_m := True, writeQueue := []\<rparr>)"
    using assms(1,3) by (intro drain_front_fail) simp_all
  with assms(2) show ?thesis
    by (simp add: process_iteration_def refresh_error)
qed

subsection \<open>The polling loops\<close>

lemma waitReset_poll_Some:
  assumes "waitReset_poll view k i = Some y"
  shows "\<exists>j. k \<in> done_flags (view j)"
  using assms
proof (induction rule: waitReset_poll.raw_induct [rotated 1, consumes 1])
  case (1 poll view k i y)
  show ?case
  proof (cases "k \<in> done_flags (view i)")
    case True
    then show ?thesis
      by blast
  next
    case False
    with "1.hyps" have "poll view k (Suc i) = Some y"
      by simp
    then show ?thesis
      by (rule "1.IH")
  qed
qed

lemma waitReset_poll_never:
  assumes "\<And>j. k \<notin> done_flags (view j)"
  shows "waitReset_poll view k i = None"
proof (cases "waitReset_poll view k i")
  case None
  then show ?thesis .
next
  case (Some y)
  from waitReset_poll_Some [OF this] assms show ?thesis
    by blast
qed

lemma rounds_error: "error_m st \<Longrightarrow> rounds E io tick i st = Inr st"
  by (induction i) (simp_all add: process_iteration_def)

lemma rounds_after_failure:
  assumes "writeQueue st = (fr, f) # rest" and "\<not> error_m st" and "\<not> exit_m st"
    and "\<not> fst (io (exchanges st)) \<or> snd (io (exchanges st)) = []"
  shows "\<exists>st1. rounds E io tick (Suc i) st = Inr st1 \<and> error_m st1
           \<and> done_flags st1 = done_flags st"
proof (induction i)
  case 0
  have "drain E io st
          = Inr (st\<lparr>exchanges := Suc (exchanges st), error_m := True, writeQueue := []\<rparr>)"
    using assms(1,4) by (rule drain_front_fail)
  with assms(2,3) show ?case
    by (simp add: process_iteration_def refresh_error)
next
  case (Suc i)
  then obtain st1 where "rounds E io tick (Suc i) st = Inr st1" and "error_m st1"
    and "done_flags st1 = done_flags st"
    by blast
  then show ?case
    by (simp add: process_iteration_def)
qed

subsection \<open>Numbers and tokens\<close>

lemma decode_ids_example:
  "decode_ids example_externals
     [CHR ''5'', CHR 0x1C, CHR ''9'', CHR 0x1C, CHR ''1'', CHR ''2''] = [5, 9, 12]"
  by code_simp

lemma digit_char_props:
  assumes "d < 10"
  shows "isdigit (digit_char d)" and "digit_val (digit_char d) = d"
    and "digit_char d \<noteq> CHR ''-''" and "digit_char d \<noteq> CHR ''+''"
    and "\<not> isspace (digit_char d)" and "digit_char d \<noteq> CHR 0x00"
proof -
  from assms consider "d = 0" | "d = 1" | "d = 2" | "d = 3" | "d = 4" | "d = 5" | "d = 6"
    | "d = 7" | "d = 8" | "d = 9"
    by atomize_elim arith
  then have "isdigit (digit_char d) \<and> digit_val (digit_char d) = d
      \<and> digit_char d \<noteq> CHR ''-'' \<and> digit_char d \<noteq> CHR ''+''
      \<and> \<not> isspace (digit_char d) \<and> digit_char d \<noteq> CHR 0x00"
    by cases (simp_all add: digit_char_def isdigit_def digit_val_def isspace_def)
  then show "isdigit (digit_char d)" and "digit_val (digit_char d) = d"
    and "digit_char d \<noteq> CHR ''-''" and "digit_char d \<noteq> CHR ''+''"
    and "\<not> isspace (digit_char d)" and "digit_char d \<noteq> CHR 0x00"
    by simp_all
qed

declare nat_digits.simps [simp del]

lemma nat_digits_isdigit: "c \<in> set (nat_digits n) \<Longrightarrow> isdigit c"
proof (induction n arbitrary: c rule: nat_digits.induct)
  case (1 n)
  show ?case
  proof (cases "n < 10")
    case True
    with "1.prems" show ?thesis
      by (simp add: nat_digits.simps [of n] digit_char_props(1))
  next
    case False
    with "1.prems" "1.IH" show ?thesis
      by (auto simp add: nat_digits.simps [of n] digit_char_props(1))
  qed
qed

lemma nat_digits_not_Nil: "nat_digits n \<noteq> []"
  by (simp add: nat_digits.simps [of n])

lemma digits_val_append: "digits_val acc (xs @ ys) = digits_val (digits_val acc xs) ys"
  by (induction xs arbitrary: acc) simp_all

lemma digits_val_nat_digits: "digits_val 0 (nat_digits n) = n"
proof (induction n rule: nat_digits.induct)
  case (1 n)
  show ?case
  proof (cases "n < 10")
    case True
    then show ?thesis
      by (simp add: nat_digits.simps [of n] digit_char_props(2))
  next
    case False
    with "1.IH" show ?thesis
      by (simp add: nat_digits.simps [of n] digits_val_append digit_char_props(2))
  qed
qed

lemma takeWhile_isdigit_nat_digits: "takeWhile isdigit (nat_digits n) = nat_digits n"
  by (simp add: nat_digits_isdigit)

lemma hd_nat_digits: "isdigit (hd (nat_digits n))"
  using nat_digits_isdigit [of "hd (nat_digits n)" n] nat_digits_not_Nil [of n] by simp

lemma isdigit_facts:
  assumes "isdigit c"
  shows "\<not> isspace c" and "c \<noteq> CHR ''-''" and "c \<noteq> CHR ''+''" and "c \<noteq> CHR 0x00"
  using assms by (auto simp add: isdigit_def isspace_def)

lemma strto_subject_nat_digits: "strto_subject (nat_digits n) = Some (False, n)"
proof -
  obtain c cs where s: "nat_digits n = c # cs"
    using nat_digits_not_Nil [of n] by (cases "nat_digits n") auto
  with hd_nat_digits [of n] have d: "isdigit c"
    by simp
  have "dropWhile isspace (nat_digits n) = nat_digits n"
    using s isdigit_facts(1) [OF d] by simp
  moreover have "c \<noteq> CHR ''-''" and "c \<noteq> CHR ''+''"
    using isdigit_facts [OF d] by simp_all
  then have "hd (nat_digits n) \<noteq> CHR ''-''" and "hd (nat_digits n) \<noteq> CHR ''+''"
    using s by simp_all
  ultimately show ?thesis
    by (simp add: strto_subject_def Let_def takeWhile_isdigit_nat_digits nat_digits_not_Nil
          digits_val_nat_digits)
qed

lemma strto_subject_minus: "strto_subject (CHR ''-'' # nat_digits n) = Some (True, n)"
proof -
  have "\<not> isspace CHR ''-''"
    by (simp add: isspace_def)
  then show ?thesis
    by (simp add: strto_subject_def Let_def takeWhile_isdigit_nat_digits nat_digits_not_Nil
          digits_val_nat_digits)
qed

lemma strtol_to_string:
  assumes "LONG_MIN \<le> x" and "x \<le> LONG_MAX"
  shows "strtol (to_string x) = x"
  using assms
  by (simp add: strtol_def to_string_def strto_subject_nat_digits strto_subject_minus Let_def)

lemma to_SongID_id:
  assumes "INT_MIN \<le> x" and "x \<le> INT_MAX"
  shows "to_SongID x = x"
  using assms
  by (simp add: to_SongID_def INT_MIN_def INT_MAX_def signed_take_bit_int_eq_self_iff)

declare strtok_all.simps [simp del]

lemma strtok_all_Nil: "strtok_all d [] = []"
  by (simp add: strtok_all.simps [of d "[]"])

lemma strtok_all_delim: "strtok_all d (d # s) = strtok_all d s"
  by (simp add: strtok_all.simps [of d "d # s"] strtok_all.simps [of d s])

lemma takeWhile_no_delim: "d \<notin> set cs \<Longrightarrow> takeWhile (\<lambda>x. x \<noteq> d) (cs @ d # rest) = cs"
  by (induction cs) auto

lemma dropWhile_no_delim:
  "d \<notin> set cs \<Longrightarrow> dropWhile (\<lambda>x. x \<noteq> d) (cs @ d # rest) = d # rest"
  by (induction cs) auto

lemma takeWhile_all: "d \<notin> set cs \<Longrightarrow> takeWhile (\<lambda>x. x \<noteq> d) cs = cs"
  by (induction cs) auto

lemma dropWhile_all: "d \<notin> set cs \<Longrightarrow> dropWhile (\<lambda>x. x \<noteq> d) cs = []"
  by (induction cs) auto

lemma strtok_all_token:
  assumes "tok \<noteq> []" and "d \<notin> set tok"
  shows "strtok_all d tok = [tok]"
proof -
  obtain c cs where t: "tok = c # cs"
    using assms(1) by (cases tok) auto
  with assms(2) have c: "c \<noteq> d" and cs: "d \<notin> set cs"
    by auto
  from t c show ?thesis
    by (simp add: strtok_all.simps [of d "c # cs"] strtok_all_Nil takeWhile_all [OF cs]
          dropWhile_all [OF cs])
qed

lemma strtok_all_token_delim:
  assumes "tok \<noteq> []" and "d \<notin> set tok"
  shows "strtok_all d (tok @ d # rest) = tok # strtok_all d rest"
proof -
  obtain c cs where t: "tok = c # cs"
    using assms(1) by (cases tok) auto
  with assms(2) have c: "c \<noteq> d" and cs: "d \<notin> set cs"
    by auto
  from t c show ?thesis
    by (simp add: strtok_all.simps [of d "c # cs @ d # rest"] strtok_all_delim
          takeWhile_no_delim [OF cs] dropWhile_no_delim [OF cs])
qed

lemma strtok_all_delimited:
  assumes "\<forall>t \<in> set toks. t \<noteq> [] \<and> d \<notin> set t"
  shows "strtok_all d (delimited d toks) = toks"
  using assms
proof (induction d toks rule: delimited.induct)
  case (1 d)
  then show ?case
    by (simp add: strtok_all_Nil)
next
  case (2 d t)
  then show ?case
    by (simp add: strtok_all_token)
next
  case (3 d t u ts)
  then show ?case
    by (simp add: strtok_all_token_delim)
qed

lemma to_string_chars:
  assumes "c \<in> set (to_string x)"
  shows "isdigit c \<or> c = CHR ''-''"
  using assms by (auto simp add: to_string_def dest: nat_digits_isdigit split: if_splits)

lemma to_string_not_Nil: "to_string x \<noteq> []"
  by (simp add: to_string_def nat_digits_not_Nil)

lemma set_delimited: "set (delimited d toks) \<subseteq> insert d (\<Union>(set ` set toks))"
  by (induction d toks rule: delimited.induct) auto

lemma c_str_delimited:
  assumes "delimiter_ok d"
  shows "c_str (delimited d (map to_string ids)) = delimited d (map to_string ids)"
proof -
  have "c \<noteq> CHR 0x00" if "c \<in> set (delimited d (map to_string ids))" for c
  proof -
    from that set_delimited [of d "map to_string ids"]
    have "c = d \<or> (\<exists>x. c \<in> set (to_string x))"
      by auto
    then show ?thesis
      using assms to_string_chars isdigit_facts(4) by (auto simp add: delimiter_ok_def)
  qed
  then show ?thesis
    by (simp add: c_str_def)
qed

lemma decode_ids_delimited:
  assumes d: "delimiter_ok (Delimiter E)"
    and r: "\<forall>x \<in> set ids. INT_MIN \<le> x \<and> x \<le> INT_MAX"
  shows "decode_ids E (delimited (Delimiter E) (map to_string ids)) = ids"
proof -
  have "\<forall>t \<in> set (map to_string ids). t \<noteq> [] \<and> Delimiter E \<notin> set t"
    using d to_string_chars to_string_not_Nil by (auto simp add: delimiter_ok_def)
  then have "strtok_all (Delimiter E) (delimited (Delimiter E) (map to_string ids))
      = map to_string ids"
    by (rule strtok_all_delimited)
  moreover have "to_SongID (strtol (to_string x)) = x" if "x \<in> set ids" for x
  proof -
    from that r have "INT_MIN \<le> x" and "x \<le> INT_MAX"
      by simp_all
    then show ?thesis
      by (simp add: strtol_to_string to_SongID_id INT_MIN_def INT_MAX_def LONG_MIN_def
            LONG_MAX_def)
  qed
  ultimately show ?thesis
    by (simp add: decode_ids_def c_str_delimited [OF d] map_idI)
qed

lemma delimited_example:
  "delimited (CHR 0x1C) (map to_string [5, 9, 12])
     = [CHR ''5'', CHR 0x1C, CHR ''9'', CHR 0x1C, CHR ''1'', CHR ''2'']"
  by (simp add: to_string_def nat_digits.simps digit_char_def)

subsection \<open>A failed exchange\<close>

text \<open>
  C1. Let the queue hold the entries \<open>pre\<close>, then the entry \<open>(fr, f)\<close>, then \<open>post\<close>, let
  the exchanges for \<open>pre\<close> go well and let the exchange for \<open>(fr, f)\<close> fail: the write
  fails or the read returns the empty text. Then the inner loop ends with the error flag
  set and the queue empty, and the callbacks it has invoked are those of \<open>pre\<close> and no
  other: neither \<open>f\<close> nor a callback of \<open>post\<close> is invoked. Nor is one invoked later:
  from then on the processing loop changes nothing.
\<close>

theorem fail_discards_tail:
  assumes "writeQueue st = pre @ (fr, f) # post" and "\<not> error_m st"
    and "exchanges_ok E io (exchanges st) pre"
    and "\<not> fst (io (exchanges st + length pre)) \<or> snd (io (exchanges st + length pre)) = []"
  shows "\<exists>st'. drain E io st = Inr st' \<and> error_m st' \<and> writeQueue st' = []
           \<and> fired st' = fired st @ invocations io (exchanges st) pre
           \<and> (\<forall>io' ticks. process E io' ticks st' = Inr st')"
proof -
  from drain_prefix [OF assms(1,2,3)] obtain st1 new where
    d: "drain E io st = drain E io st1" and w: "writeQueue st1 = ((fr, f) # post) @ new"
    and x: "exchanges st1 = exchanges st + length pre"
    and fi: "fired st1 = fired st @ invocations io (exchanges st) pre"
    by blast
  let ?st2 = "st1\<lparr>exchanges := Suc (exchanges st1), error_m := True, writeQueue := []\<rparr>"
  from w have q: "writeQueue st1 = (fr, f) # (post @ new)"
    by simp
  have "drain_step E (io (exchanges st1)) f st1 = Inr ?st2"
    using assms(4) x by (intro drain_step_fail) simp
  then have "drain E io st1 = drain E io ?st2"
    using drain_Cons [OF q, of E io] by simp
  also have "\<dots> = Inr ?st2"
    by (rule drain_Nil) simp
  finally have "drain E io st = Inr ?st2"
    using d by simp
  moreover have "process E io' ticks ?st2 = Inr ?st2" for io' ticks
    by (rule process_error) simp
  ultimately show ?thesis
    using fi by simp
qed

theorem fail_discards_tail_witness:
  "\<exists>st st'. Sysmodule example_externals 0 0 3 ''1'' = Inr st
      \<and> drain example_externals
           (\<lambda>n. if n = 0 then (True, [CHR ''5'', CHR 0x1C, CHR ''9'']) else (True, [])) st
         = Inr st'
      \<and> error_m st' \<and> writeQueue st' = []
      \<and> fired st' = [(sendGetQueue_cb, [CHR ''5'', CHR 0x1C, CHR ''9''])]
      \<and> process example_externals (\<lambda>n. (True, ''1'')) [(True, 1), (True, 2)] st' = Inr st'"
proof -
  let ?E = example_externals
  let ?io = "\<lambda>n::nat. if n = 0 then (True, [CHR ''5'', CHR 0x1C, CHR ''9'']) else (True, [])"
  let ?st = "sendGetSubQueue ?E 0 5000
              (sendGetQueue ?E 0 25000 ((constructed 0 0)\<lparr>socket := 3, error_m := False\<rparr>))"
  let ?fr1 = "frame ?E Command_GetQueue [size_to_string 0, size_to_string 25000]"
  let ?fr2 = "frame ?E Command_GetSubQueue [size_to_string 0, size_to_string 5000]"
  have q: "writeQueue ?st = [(?fr1, sendGetQueue_cb)] @ (?fr2, sendGetSubQueue_cb) # []"
    by (simp add: sendGetQueue_def sendGetSubQueue_def addToWriteQueue_def constructed_def)
  have n: "\<not> error_m ?st"
    by (simp add: sendGetQueue_def sendGetSubQueue_def addToWriteQueue_def constructed_def)
  have x: "exchanges ?st = 0" and f: "fired ?st = []"
    by (simp_all add: sendGetQueue_def sendGetSubQueue_def addToWriteQueue_def constructed_def)
  have ok: "exchanges_ok ?E ?io (exchanges ?st) [(?fr1, sendGetQueue_cb)]"
    by (simp add: x exchange_ok_def conversion_fault_def)
  have fl: "\<not> fst (?io (exchanges ?st + length [(?fr1, sendGetQueue_cb)]))
      \<or> snd (?io (exchanges ?st + length [(?fr1, sendGetQueue_cb)])) = []"
    by (simp add: x)
  from fail_discards_tail [OF q n ok fl] obtain st' where
    d: "drain ?E ?io ?st = Inr st'" and e: "error_m st'" and w: "writeQueue st' = []"
    and fi: "fired st' = fired ?st @ invocations ?io (exchanges ?st) [(?fr1, sendGetQueue_cb)]"
    and p: "\<And>io' ticks. process ?E io' ticks st' = Inr st'"
    by blast
  from fi have "fired st' = [(sendGetQueue_cb, [CHR ''5'', CHR 0x1C, CHR ''9''])]"
    by (simp add: x f)
  with Sysmodule_example d e w p [of "\<lambda>n. (True, ''1'')" "[(True, 1), (True, 2)]"]
  show ?thesis
    by blast
qed

subsection \<open>The order of service\<close>

text \<open>
  C2. Let the error flag be clear. After the calls \<open>reqs\<close> of \<^verbatim>\<open>addToWriteQueue\<close> the
  queue holds the entries it held and then those of \<open>reqs\<close>, in the order of the calls; if
  the exchanges for them go well (no write fails, no response is empty and every callback
  can convert its response), the inner loop invokes their callbacks in exactly that order,
  each with the response of its own exchange, before any other callback. And when calls
  and rounds of the inner loop take turns in any way and no exchange has failed, the
  callbacks invoked so far followed by those still queued hold the callbacks of the calls
  in the order of the calls.
\<close>

theorem fifo_order:
  assumes "\<not> error_m st"
  shows "(exchanges_ok E io (exchanges st) (writeQueue st @ reqs) \<longrightarrow>
            writeQueue (enqueue_all reqs st) = writeQueue st @ reqs
            \<and> (\<exists>more. fired (state_of (drain E io (enqueue_all reqs st)))
                  = fired st @ invocations io (exchanges st) (writeQueue st @ reqs) @ more))
         \<and> (run_events E io es st = Inr st' \<and> \<not> error_m st' \<longrightarrow>
              (\<exists>more. service_order st' = service_order st @ more \<and> subseq (calls es) more))"
proof (intro conjI impI)
  assume ok0: "exchanges_ok E io (exchanges st) (writeQueue st @ reqs)"
  let ?st0 = "enqueue_all reqs st"
  have e: "?st0 = st\<lparr>writeQueue := writeQueue st @ reqs\<rparr>"
    using assms by (rule enqueue_all_queue)
  then have w: "writeQueue ?st0 = (writeQueue st @ reqs) @ []" and n: "\<not> error_m ?st0"
    and x: "exchanges ?st0 = exchanges st" and fi: "fired ?st0 = fired st"
    using assms by simp_all
  from w show "writeQueue ?st0 = writeQueue st @ reqs"
    by simp
  from ok0 x have ok: "exchanges_ok E io (exchanges ?st0) (writeQueue st @ reqs)"
    by simp
  from drain_prefix [OF w n ok] obtain st1 where
    d: "drain E io ?st0 = drain E io st1"
    and f1: "fired st1 = fired ?st0 @ invocations io (exchanges ?st0) (writeQueue st @ reqs)"
    by blast
  from drain_fired_grows [of E io st1] obtain more where
    "fired (state_of (drain E io st1)) = fired st1 @ more"
    by blast
  with d f1 fi x have "fired (state_of (drain E io ?st0))
      = fired st @ invocations io (exchanges st) (writeQueue st @ reqs) @ more"
    by simp
  then show "\<exists>more. fired (state_of (drain E io ?st0))
      = fired st @ invocations io (exchanges st) (writeQueue st @ reqs) @ more"
    by blast
next
  assume "run_events E io es st = Inr st' \<and> \<not> error_m st'"
  then show "\<exists>more. service_order st' = service_order st @ more \<and> subseq (calls es) more"
    using run_events_order [of E io es st st'] by blast
qed

theorem fifo_order_witness:
  "(\<exists>more. fired (state_of (drain example_externals
                (\<lambda>n. if n = 0 then (True, ''7'') else (True, ''1''))
                (sendGetStatus example_externals
                  (sendGetSong example_externals ((constructed 0 0)\<lparr>error_m := False\<rparr>)))))
      = [(sendGetSong_cb, ''7''), (sendGetStatus_cb, ''1'')] @ more)
   \<and> (\<exists>st' more.
         run_events example_externals (\<lambda>n. if n = 0 then (True, ''7'') else (True, ''1''))
           [Enqueue ''23'' sendGetSong_cb, Round, Enqueue ''24'' sendGetStatus_cb, Round]
           ((constructed 0 0)\<lparr>error_m := False\<rparr>) = Inr st'
         \<and> \<not> error_m st'
         \<and> fired st' = [(sendGetSong_cb, ''7''), (sendGetStatus_cb, ''1'')]
         \<and> service_order st' = more
         \<and> subseq [sendGetSong_cb, sendGetStatus_cb] more)"
proof -
  let ?E = example_externals
  let ?io = "\<lambda>n::nat. if n = 0 then (True, ''7'') else (True, ''1'')"
  let ?st = "(constructed 0 0)\<lparr>error_m := False\<rparr>"
  let ?reqs = "[(frame ?E Command_GetSong [], sendGetSong_cb),
                (frame ?E Command_GetStatus [], sendGetStatus_cb)]"
  let ?es = "[Enqueue ''23'' sendGetSong_cb, Round, Enqueue ''24'' sendGetStatus_cb, Round]"
  have n: "\<not> error_m ?st"
    by simp
  have w: "writeQueue ?st = []" and x: "exchanges ?st = 0" and f: "fired ?st = []"
    by (simp_all add: constructed_def)
  have ok: "exchanges_ok ?E ?io (exchanges ?st) (writeQueue ?st @ ?reqs)"
    by (simp add: w x exchange_ok_def conversion_fault_def conversion_defs)
  have e: "enqueue_all ?reqs ?st = sendGetStatus ?E (sendGetSong ?E ?st)"
    by (simp add: sendGetStatus_def sendGetSong_def)
  have so: "service_order ?st = []"
    by (simp add: service_order_def constructed_def)
  note t = fifo_order [OF n, of ?E ?io ?reqs ?es]
  from t ok
  have "\<exists>more. fired (state_of (drain ?E ?io (enqueue_all ?reqs ?st)))
          = fired ?st @ invocations ?io (exchanges ?st) (writeQueue ?st @ ?reqs) @ more"
    by blast
  then have a: "\<exists>more. fired (state_of (drain ?E ?io (sendGetStatus ?E (sendGetSong ?E ?st))))
      = [(sendGetSong_cb, ''7''), (sendGetStatus_cb, ''1'')] @ more"
    unfolding e by (simp add: w x f)
  have "\<exists>st'. run_events ?E ?io ?es ?st = Inr st' \<and> \<not> error_m st'
          \<and> fired st' = [(sendGetSong_cb, ''7''), (sendGetStatus_cb, ''1'')]"
    by (simp add: addToWriteQueue_def drain_step_def exchange_def clear_on_error_def
          constructed_def conversion_defs)
  then obtain st' where r: "run_events ?E ?io ?es ?st = Inr st'" and n': "\<not> error_m st'"
    and f': "fired st' = [(sendGetSong_cb, ''7''), (sendGetStatus_cb, ''1'')]"
    by blast
  from t [of st'] r n' so have "subseq [sendGetSong_cb, sendGetStatus_cb] (service_order st')"
    by simp
  with r n' f' a show ?thesis
    by blast
qed

subsection \<open>The handshake\<close>

text \<open>
  C3. If the response to the version query is empty, or is converted to a number other
  than the client's version, \<^verbatim>\<open>reconnect\<close> returns with the error flag set. From then
  on the processing loop changes nothing, whatever the socket and the clock would do, so
  it makes no exchange; \<^verbatim>\<open>addToWriteQueue\<close> and every request builder leave the queue as
  it is; and a later \<^verbatim>\<open>reconnect\<close> whose response is the client's version clears the flag.
\<close>

theorem handshake_gate:
  assumes "str = [] \<or> (\<exists>ver. stoi str = Inr ver \<and> ver \<noteq> Version E)"
  shows "\<exists>st'. reconnect E fd str st = Inr st' \<and> error st'
           \<and> (\<forall>io ticks. process E io ticks st' = Inr st')
           \<and> (\<forall>s f. addToWriteQueue s f st' = st')
           \<and> (\<forall>req. writeQueue (call E req st') = writeQueue st')
           \<and> (\<forall>fd' str'. stoi str' = Inr (Version E) \<longrightarrow>
                 (\<exists>st''. reconnect E fd' str' st' = Inr st'' \<and> \<not> error st''))"
proof -
  define st' where "st' = st\<lparr>socket := fd, error_m := True\<rparr>"
  have r: "reconnect E fd str st = Inr st'"
    unfolding st'_def using assms by (rule reconnect_mismatch)
  have e: "error_m st'"
    by (simp add: st'_def)
  have a: "addToWriteQueue s f st' = st'" for s f
    using e by (simp add: addToWriteQueue_def)
  have b: "\<exists>st''. reconnect E fd' str' st' = Inr st'' \<and> \<not> error st''"
    if "stoi str' = Inr (Version E)" for fd' str'
    using reconnect_match [OF that, of fd' st'] by (simp add: error_def)
  from r e a b process_error [OF e] call_error [OF e] show ?thesis
    unfolding error_def by blast
qed

theorem handshake_gate_witness:
  "\<exists>st'. reconnect example_externals 3 ''2'' (constructed 0 0) = Inr st'
      \<and> error st'
      \<and> process example_externals (\<lambda>n. (True, ''1'')) [(True, 1)] st' = Inr st'
      \<and> writeQueue (sendResume example_externals st') = []
      \<and> (\<exists>st''. reconnect example_externals 4 ''1'' st' = Inr st'' \<and> \<not> error st'')"
proof -
  have m: "''2'' = [] \<or> (\<exists>ver. stoi ''2'' = Inr ver \<and> ver \<noteq> Version example_externals)"
    by (simp add: conversion_defs example_externals_def)
  from handshake_gate [OF m, of 3 "constructed 0 0"] obtain st' where
    r: "reconnect example_externals 3 ''2'' (constructed 0 0) = Inr st'" and e: "error st'"
    and p: "\<And>io ticks. process example_externals io ticks st' = Inr st'"
    and c: "\<And>req. writeQueue (call example_externals req st') = writeQueue st'"
    and b: "\<And>fd' str'. stoi str' = Inr (Version example_externals) \<Longrightarrow>
              \<exists>st''. reconnect example_externals fd' str' st' = Inr st'' \<and> \<not> error st''"
    by blast
  have v: "stoi ''1'' = Inr (Version example_externals)"
    by (simp add: conversion_defs example_externals_def)
  have "reconnect example_externals 3 ''2'' (constructed 0 0)
          = Inr ((constructed 0 0)\<lparr>socket := 3, error_m := True\<rparr>)"
    using m by (rule reconnect_mismatch)
  with r have "writeQueue st' = []"
    by (auto simp add: constructed_def)
  with c [of Call_sendResume] have "writeQueue (sendResume example_externals st') = []"
    by simp
  with r e p b [OF v, of 4] show ?thesis
    by blast
qed

subsection \<open>A response that cannot be converted\<close>

text \<open>
  The claim C4 says that a response that is not a number is handled like a failed read.
  It is not: the callback of \<^verbatim>\<open>sendGetVolume\<close> given \<^verbatim>\<open>abc\<close> throws
  \<^verbatim>\<open>std::invalid_argument\<close>, the exception leaves \<^verbatim>\<open>process\<close>, the error flag stays clear
  and the queue is not discarded.
\<close>

theorem malformed_response_counterexample:
  "\<exists>st'. process_iteration example_externals (\<lambda>n. (True, ''abc'')) (False, 0)
            (sendGetVolume example_externals ((constructed 0 0)\<lparr>error_m := False\<rparr>))
          = Inl (InvalidArgument, st')
      \<and> \<not> error_m st' \<and> writeQueue st' \<noteq> []"
proof -
  let ?E = example_externals
  let ?io = "\<lambda>n::nat. (True, ''abc'')"
  let ?st = "sendGetVolume ?E ((constructed 0 0)\<lparr>error_m := False\<rparr>)"
  have q: "writeQueue ?st = [] @ (frame ?E Command_GetVolume [], sendGetVolume_cb) # []"
    and n: "\<not> error_m ?st"
    by (simp_all add: sendGetVolume_def addToWriteQueue_def constructed_def)
  have c: "conversion_fault ?E sendGetVolume_cb ''abc'' = Some InvalidArgument"
    by (simp add: conversion_fault_def stod_def strtod_subject_def isspace_def isdigit_def
          tolower_def)
  from drain_throw [OF q n _ _ _ c, of ?io] n show ?thesis
    by (auto simp add: process_iteration_def)
qed

text \<open>
  C4, amended. When the exchanges for the entries \<open>pre\<close> go well and the response \<open>r\<close> to
  the next entry cannot be converted by its callback \<open>f\<close>, the callback throws in every
  state, before it assigns anything, and the exception leaves the round of the processing
  loop: the error flag stays clear, the entry stays at the front of the queue with the
  entries behind it, and the callbacks invoked are those of \<open>pre\<close> and \<open>f\<close>. When the
  entry is the first of the round, the cached state is as it was.
\<close>

theorem malformed_response_escapes:
  assumes "writeQueue st = pre @ (fr, f) # post" and "\<not> error_m st"
    and "exchanges_ok E io (exchanges st) pre"
    and "io (exchanges st + length pre) = (True, r)" and "r \<noteq> []"
    and "conversion_fault E f r = Some e"
  shows "\<exists>st' new. process_iteration E io tick st = Inl (e, st')
           \<and> (\<forall>s. run_callback E f r s = Inl e)
           \<and> \<not> error_m st' \<and> writeQueue st' = (fr, f) # post @ new
           \<and> fired st' = fired st @ invocations io (exchanges st) pre @ [(f, r)]
           \<and> (pre = [] \<longrightarrow> cached st' = cached st)"
proof -
  from drain_throw [OF assms] obtain st1 new where
    d: "drain E io st
          = Inl (e, st1\<lparr>exchanges := Suc (exchanges st1), fired := fired st1 @ [(f, r)]\<rparr>)"
    and n1: "\<not> error_m st1" and q1: "writeQueue st1 = (fr, f) # post @ new"
    and f1: "fired st1 = fired st @ invocations io (exchanges st) pre"
    and p: "pre = [] \<longrightarrow> st1 = st"
    by blast
  let ?st' = "st1\<lparr>exchanges := Suc (exchanges st1), fired := fired st1 @ [(f, r)]\<rparr>"
  have "process_iteration E io tick st = Inl (e, ?st')"
    using d assms(2) by (simp add: process_iteration_def)
  moreover have "\<forall>s. run_callback E f r s = Inl e"
    using assms(6) by (simp add: run_callback_Inl)
  moreover have "pre = [] \<longrightarrow> cached ?st' = cached st"
    using p by (simp add: cached_def)
  ultimately show ?thesis
    using n1 q1 f1 by (intro exI [of _ ?st'] exI [of _ new]) simp
qed

theorem malformed_response_escapes_witness:
  "(\<exists>st' new. process_iteration example_externals
            (\<lambda>n. if n = 0 then (True, ''7'') else (True, ''x'')) (True, 5)
            (sendGetStatus example_externals
              (sendGetSong example_externals ((constructed 0 0)\<lparr>error_m := False\<rparr>)))
          = Inl (InvalidArgument, st')
      \<and> \<not> error_m st'
      \<and> writeQueue st' = (frame example_externals Command_GetStatus [], sendGetStatus_cb) # new
      \<and> fired st' = [(sendGetSong_cb, ''7''), (sendGetStatus_cb, ''x'')])
   \<and> (\<exists>st' new. process_iteration example_externals (\<lambda>n. (True, ''abc'')) (True, 5)
            (sendGetVolume example_externals ((constructed 0 0)\<lparr>error_m := False\<rparr>))
          = Inl (InvalidArgument, st')
      \<and> \<not> error_m st'
      \<and> writeQueue st' = (frame example_externals Command_GetVolume [], sendGetVolume_cb) # new
      \<and> cached st' = cached (constructed 0 0))"
proof -
  let ?E = example_externals
  let ?io = "\<lambda>n::nat. if n = 0 then (True, ''7'') else (True, ''x'')"
  let ?st = "sendGetStatus ?E (sendGetSong ?E ((constructed 0 0)\<lparr>error_m := False\<rparr>))"
  let ?pre = "[(frame ?E Command_GetSong [], sendGetSong_cb)]"
  have q: "writeQueue ?st = ?pre @ (frame ?E Command_GetStatus [], sendGetStatus_cb) # []"
    and n: "\<not> error_m ?st" and x: "exchanges ?st = 0" and f: "fired ?st = []"
    by (simp_all add: sendGetSong_def sendGetStatus_def addToWriteQueue_def constructed_def)
  have ok: "exchanges_ok ?E ?io (exchanges ?st) ?pre"
    by (simp add: x exchange_ok_def conversion_fault_def conversion_defs)
  have i: "?io (exchanges ?st + length ?pre) = (True, ''x'')"
    by (simp add: x)
  have c: "conversion_fault ?E sendGetStatus_cb ''x'' = Some InvalidArgument"
    by (simp add: conversion_fault_def conversion_defs)
  from malformed_response_escapes [OF q n ok i _ c, of "(True, 5)"]
  have "\<exists>st' new. process_iteration ?E ?io (True, 5) ?st = Inl (InvalidArgument, st')
          \<and> \<not> error_m st'
          \<and> writeQueue st' = (frame ?E Command_GetStatus [], sendGetStatus_cb) # [] @ new
          \<and> fired st'
              = fired ?st @ invocations ?io (exchanges ?st) ?pre @ [(sendGetStatus_cb, ''x'')]"
    by blast
  then have a: "\<exists>st' new. process_iteration ?E ?io (True, 5) ?st = Inl (InvalidArgument, st')
          \<and> \<not> error_m st'
          \<and> writeQueue st' = (frame ?E Command_GetStatus [], sendGetStatus_cb) # new
          \<and> fired st' = [(sendGetSong_cb, ''7''), (sendGetStatus_cb, ''x'')]"
    by (simp add: x f)
  let ?io2 = "\<lambda>n::nat. (True, ''abc'')"
  let ?st2 = "sendGetVolume ?E ((constructed 0 0)\<lparr>error_m := False\<rparr>)"
  have q2: "writeQueue ?st2 = [] @ (frame ?E Command_GetVolume [], sendGetVolume_cb) # []"
    and n2: "\<not> error_m ?st2" and k2: "cached ?st2 = cached (constructed 0 0)"
    by (simp_all add: sendGetVolume_def addToWriteQueue_def constructed_def cached_def)
  have c2: "conversion_fault ?E sendGetVolume_cb ''abc'' = Some InvalidArgument"
    by (simp add: conversion_fault_def stod_def strtod_subject_def isspace_def isdigit_def
          tolower_def)
  from malformed_response_escapes [OF q2 n2 _ _ _ c2, of ?io2 "(True, 5)"]
  have "\<exists>st' new. process_iteration ?E ?io2 (True, 5) ?st2 = Inl (InvalidArgument, st')
          \<and> \<not> error_m st'
          \<and> writeQueue st' = (frame ?E Command_GetVolume [], sendGetVolume_cb) # [] @ new
          \<and> cached st' = cached ?st2"
    by auto
  then have b: "\<exists>st' new. process_iteration ?E ?io2 (True, 5) ?st2 = Inl (InvalidArgument, st')
          \<and> \<not> error_m st'
          \<and> writeQueue st' = (frame ?E Command_GetVolume [], sendGetVolume_cb) # new
          \<and> cached st' = cached (constructed 0 0)"
    by (simp add: k2)
  from a b show ?thesis
    by blast
qed

subsection \<open>Polls that find a change\<close>

text \<open>
  C5. When the response to a queue-size poll, a sub-queue-size poll or a queue-index poll
  is converted to a value other than the cached one (and the error flag is clear, as it is
  when the processing loop invokes a callback), the states the callback passes through
  are, in this order: the state in which the request for the sequence is queued (for the
  index, the state with the request for the main queue queued and then the state with the
  request for the sub-queue queued behind it), with the cached value still the old one,
  and then the state in which the cached value is the new one. So the request is queued
  at a state before the first state in which the cached value has changed. The last state
  is the one the callback returns.
\<close>

theorem refetch_before_update:
  assumes "\<not> error_m st" and "stoul r = Inr tmp"
  shows "(queueSize_m st \<noteq> tmp \<longrightarrow>
            (\<exists>st1 tr. st1 = st\<lparr>writeQueue := writeQueue st
                          @ [(GetQueue_frame E, sendGetQueue_cb)]\<rparr>
               \<and> tr = [st1, st1\<lparr>queueSize_m := tmp\<rparr>]
               \<and> callback_steps E sendGetQueueSize_cb r st = Inr tr
               \<and> run_callback E sendGetQueueSize_cb r st = Inr (last tr)
               \<and> happens_before (\<lambda>s. writeQueue s = writeQueue st1)
                    (\<lambda>s. queueSize_m s \<noteq> queueSize_m st) (st # tr)))
       \<and> (subQueueSize_m st \<noteq> tmp \<longrightarrow>
            (\<exists>st1 tr. st1 = st\<lparr>writeQueue := writeQueue st
                          @ [(GetSubQueue_frame E, sendGetSubQueue_cb)]\<rparr>
               \<and> tr = [st1, st1\<lparr>subQueueSize_m := tmp\<rparr>]
               \<and> callback_steps E sendGetSubQueueSize_cb r st = Inr tr
               \<and> run_callback E sendGetSubQueueSize_cb r st = Inr (last tr)
               \<and> happens_before (\<lambda>s. writeQueue s = writeQueue st1)
                    (\<lambda>s. subQueueSize_m s \<noteq> subQueueSize_m st) (st # tr)))
       \<and> (songIdx_m st \<noteq> tmp \<longrightarrow>
            (\<exists>st1 st2 tr. st1 = st\<lparr>writeQueue := writeQueue st
                          @ [(GetQueue_frame E, sendGetQueue_cb)]\<rparr>
               \<and> st2 = st1\<lparr>writeQueue := writeQueue st1
                          @ [(GetSubQueue_frame E, sendGetSubQueue_cb)]\<rparr>
               \<and> tr = [st1, st2, st2\<lparr>songIdx_m := tmp\<rparr>]
               \<and> callback_steps E sendGetSongIdx_cb r st = Inr tr
               \<and> run_callback E sendGetSongIdx_cb r st = Inr (last tr)
               \<and> happens_before (\<lambda>s. writeQueue s = writeQueue st2)
                    (\<lambda>s. songIdx_m s \<noteq> songIdx_m st) (st # tr)))"
proof (intro conjI impI)
  assume d: "queueSize_m st \<noteq> tmp"
  let ?st1 = "st\<lparr>writeQueue := writeQueue st @ [(GetQueue_frame E, sendGetQueue_cb)]\<rparr>"
  let ?tr = "[?st1, ?st1\<lparr>queueSize_m := tmp\<rparr>]"
  have s: "callback_steps E sendGetQueueSize_cb r st = Inr ?tr"
    using assms d by (simp add: sendGetQueue_entry Let_def)
  then have r: "run_callback E sendGetQueueSize_cb r st = Inr (last ?tr)"
    by (simp add: run_callback_steps)
  have h: "happens_before (\<lambda>s. writeQueue s = writeQueue ?st1)
             (\<lambda>s. queueSize_m s \<noteq> queueSize_m st) (st # ?tr)"
    using d by (simp add: happens_before_def)
  from s r h show "\<exists>st1 tr. st1 = ?st1 \<and> tr = [st1, st1\<lparr>queueSize_m := tmp\<rparr>]
      \<and> callback_steps E sendGetQueueSize_cb r st = Inr tr
      \<and> run_callback E sendGetQueueSize_cb r st = Inr (last tr)
      \<and> happens_before (\<lambda>s. writeQueue s = writeQueue st1)
           (\<lambda>s. queueSize_m s \<noteq> queueSize_m st) (st # tr)"
    by blast
next
  assume d: "subQueueSize_m st \<noteq> tmp"
  let ?st1 = "st\<lparr>writeQueue := writeQueue st @ [(GetSubQueue_frame E, sendGetSubQueue_cb)]\<rparr>"
  let ?tr = "[?st1, ?st1\<lparr>subQueueSize_m := tmp\<rparr>]"
  have s: "callback_steps E sendGetSubQueueSize_cb r st = Inr ?tr"
    using assms d by (simp add: sendGetSubQueue_entry Let_def)
  then have r: "run_callback E sendGetSubQueueSize_cb r st = Inr (last ?tr)"
    by (simp add: run_callback_steps)
  have h: "happens_before (\<lambda>s. writeQueue s = writeQueue ?st1)
             (\<lambda>s. subQueueSize_m s \<noteq> subQueueSize_m st) (st # ?tr)"
    using d by (simp add: happens_before_def)
  from s r h show "\<exists>st1 tr. st1 = ?st1 \<and> tr = [st1, st1\<lparr>subQueueSize_m := tmp\<rparr>]
      \<and> callback_steps E sendGetSubQueueSize_cb r st = Inr tr
      \<and> run_callback E sendGetSubQueueSize_cb r st = Inr (last tr)
      \<and> happens_before (\<lambda>s. writeQueue s = writeQueue st1)
           (\<lambda>s. subQueueSize_m s \<noteq> subQueueSize_m st) (st # tr)"
    by blast
next
  assume d: "songIdx_m st \<noteq> tmp"
  let ?st1 = "st\<lparr>writeQueue := writeQueue st @ [(GetQueue_frame E, sendGetQueue_cb)]\<rparr>"
  let ?st2 = "?st1\<lparr>writeQueue := writeQueue ?st1
                @ [(GetSubQueue_frame E, sendGetSubQueue_cb)]\<rparr>"
  let ?tr = "[?st1, ?st2, ?st2\<lparr>songIdx_m := tmp\<rparr>]"
  have e1: "sendGetQueue E 0 25000 st = ?st1"
    using assms(1) by (rule sendGetQueue_entry)
  have e2: "sendGetSubQueue E 0 5000 ?st1 = ?st2"
    using assms(1) by (intro sendGetSubQueue_entry) simp
  have s: "callback_steps E sendGetSongIdx_cb r st = Inr ?tr"
    using assms(2) d by (simp add: e1 e2 Let_def)
  then have r: "run_callback E sendGetSongIdx_cb r st = Inr (last ?tr)"
    by (simp add: run_callback_steps)
  have h: "happens_before (\<lambda>s. writeQueue s = writeQueue ?st2)
             (\<lambda>s. songIdx_m s \<noteq> songIdx_m st) (st # ?tr)"
    using d by (simp add: happens_before_def)
  from s r h show "\<exists>st1 st2 tr. st1 = ?st1
      \<and> st2 = st1\<lparr>writeQueue := writeQueue st1
                 @ [(GetSubQueue_frame E, sendGetSubQueue_cb)]\<rparr>
      \<and> tr = [st1, st2, st2\<lparr>songIdx_m := tmp\<rparr>]
      \<and> callback_steps E sendGetSongIdx_cb r st = Inr tr
      \<and> run_callback E sendGetSongIdx_cb r st = Inr (last tr)
      \<and> happens_before (\<lambda>s. writeQueue s = writeQueue st2)
           (\<lambda>s. songIdx_m s \<noteq> songIdx_m st) (st # tr)"
    by blast
qed

theorem refetch_before_update_witness:
  "callback_steps example_externals sendGetQueueSize_cb ''3''
       ((constructed 0 0)\<lparr>error_m := False\<rparr>)
     = Inr [(constructed 0 0)\<lparr>error_m := False,
              writeQueue := [([CHR ''1'', CHR ''2'', CHR 0x1C, CHR ''0'', CHR 0x1C,
                               CHR ''2'', CHR ''5'', CHR ''0'', CHR ''0'', CHR ''0''],
                              sendGetQueue_cb)]\<rparr>,
            (constructed 0 0)\<lparr>error_m := False,
              writeQueue := [([CHR ''1'', CHR ''2'', CHR 0x1C, CHR ''0'', CHR 0x1C,
                               CHR ''2'', CHR ''5'', CHR ''0'', CHR ''0'', CHR ''0''],
                              sendGetQueue_cb)],
              queueSize_m := 3\<rparr>]
   \<and> callback_steps example_externals sendGetSubQueueSize_cb ''3''
       ((constructed 0 0)\<lparr>error_m := False\<rparr>)
     = Inr [(constructed 0 0)\<lparr>error_m := False,
              writeQueue := [([CHR ''1'', CHR ''7'', CHR 0x1C, CHR ''0'', CHR 0x1C,
                               CHR ''5'', CHR ''0'', CHR ''0'', CHR ''0''],
                              sendGetSubQueue_cb)]\<rparr>,
            (constructed 0 0)\<lparr>error_m := False,
              writeQueue := [([CHR ''1'', CHR ''7'', CHR 0x1C, CHR ''0'', CHR 0x1C,
                               CHR ''5'', CHR ''0'', CHR ''0'', CHR ''0''],
                              sendGetSubQueue_cb)],
              subQueueSize_m := 3\<rparr>]
   \<and> callback_steps example_externals sendGetSongIdx_cb ''3''
       ((constructed 0 0)\<lparr>error_m := False\<rparr>)
     = Inr [(constructed 0 0)\<lparr>error_m := False,
              writeQueue := [([CHR ''1'', CHR ''2'', CHR 0x1C, CHR ''0'', CHR 0x1C,
                               CHR ''2'', CHR ''5'', CHR ''0'', CHR ''0'', CHR ''0''],
                              sendGetQueue_cb)]\<rparr>,
            (constructed 0 0)\<lparr>error_m := False,
              writeQueue := [([CHR ''1'', CHR ''2'', CHR 0x1C, CHR ''0'', CHR 0x1C,
                               CHR ''2'', CHR ''5'', CHR ''0'', CHR ''0'', CHR ''0''],
                              sendGetQueue_cb),
                             ([CHR ''1'', CHR ''7'', CHR 0x1C, CHR ''0'', CHR 0x1C,
                               CHR ''5'', CHR ''0'', CHR ''0'', CHR ''0''],
                              sendGetSubQueue_cb)]\<rparr>,
            (constructed 0 0)\<lparr>error_m := False,
              writeQueue := [([CHR ''1'', CHR ''2'', CHR 0x1C, CHR ''0'', CHR 0x1C,
                               CHR ''2'', CHR ''5'', CHR ''0'', CHR ''0'', CHR ''0''],
                              sendGetQueue_cb),
                             ([CHR ''1'', CHR ''7'', CHR 0x1C, CHR ''0'', CHR 0x1C,
                               CHR ''5'', CHR ''0'', CHR ''0'', CHR ''0''],
                              sendGetSubQueue_cb)],
              songIdx_m := 3\<rparr>]
   \<and> happens_before
       (\<lambda>s. writeQueue s
              = [([CHR ''1'', CHR ''2'', CHR 0x1C, CHR ''0'', CHR 0x1C,
                   CHR ''2'', CHR ''5'', CHR ''0'', CHR ''0'', CHR ''0''], sendGetQueue_cb)])
       (\<lambda>s. queueSize_m s \<noteq> 0)
       [(constructed 0 0)\<lparr>error_m := False\<rparr>,
        (constructed 0 0)\<lparr>error_m := False,
          writeQueue := [([CHR ''1'', CHR ''2'', CHR 0x1C, CHR ''0'', CHR 0x1C,
                           CHR ''2'', CHR ''5'', CHR ''0'', CHR ''0'', CHR ''0''],
                          sendGetQueue_cb)]\<rparr>,
        (constructed 0 0)\<lparr>error_m := False,
          writeQueue := [([CHR ''1'', CHR ''2'', CHR 0x1C, CHR ''0'', CHR 0x1C,
                           CHR ''2'', CHR ''5'', CHR ''0'', CHR ''0'', CHR ''0''],
                          sendGetQueue_cb)],
          queueSize_m := 3\<rparr>]"
proof -
  let ?st = "(constructed 0 0)\<lparr>error_m := False\<rparr>"
  have n: "\<not> error_m ?st"
    by simp
  have s: "stoul ''3'' = Inr 3"
    by (simp add: conversion_defs)
  have d: "queueSize_m ?st \<noteq> 3" "subQueueSize_m ?st \<noteq> 3" "songIdx_m ?st \<noteq> 3"
    and w: "writeQueue ?st = []" and z: "queueSize_m ?st = 0"
    by (simp_all add: constructed_def)
  from refetch_before_update [OF n s, of example_externals] d show ?thesis
    by (simp add: GetQueue_frame_example GetSubQueue_frame_example w z)
qed

subsection \<open>The dirty flags\<close>

text \<open>
  C6. The callback of \<^verbatim>\<open>sendGetQueue\<close> sets \<^verbatim>\<open>queueChanged_\<close>; the accessor
  \<^verbatim>\<open>queueChanged()\<close> then returns true and clears the flag, changing nothing else, and
  called again at once it returns false. The same holds for \<^verbatim>\<open>sendGetSubQueue\<close>,
  \<^verbatim>\<open>subQueueChanged_\<close> and \<^verbatim>\<open>subQueueChanged()\<close>.
\<close>

theorem dirty_flags_read_once:
  "(\<exists>st1. run_callback E sendGetQueue_cb r st = Inr st1
        \<and> queueChanged_m st1
        \<and> queueChanged st1 = (True, st1\<lparr>queueChanged_m := False\<rparr>)
        \<and> queueChanged (st1\<lparr>queueChanged_m := False\<rparr>) = (False, st1\<lparr>queueChanged_m := False\<rparr>))
   \<and> (\<exists>st1. run_callback E sendGetSubQueue_cb r st = Inr st1
        \<and> subQueueChanged_m st1
        \<and> subQueueChanged st1 = (True, st1\<lparr>subQueueChanged_m := False\<rparr>)
        \<and> subQueueChanged (st1\<lparr>subQueueChanged_m := False\<rparr>)
            = (False, st1\<lparr>subQueueChanged_m := False\<rparr>))"
  by (simp add: queueChanged_def subQueueChanged_def)

theorem dirty_flags_read_once_witness:
  "\<exists>st1. run_callback example_externals sendGetQueue_cb
            [CHR ''5'', CHR 0x1C, CHR ''9'', CHR 0x1C, CHR ''1'', CHR ''2''] (constructed 0 0)
          = Inr st1
      \<and> queue_m st1 = [5, 9, 12]
      \<and> fst (queueChanged st1)
      \<and> \<not> fst (queueChanged (snd (queueChanged st1)))"
  using dirty_flags_read_once
    [of example_externals "[CHR ''5'', CHR 0x1C, CHR ''9'', CHR 0x1C, CHR ''1'', CHR ''2'']"
      "constructed 0 0"]
  by (auto simp add: decode_ids_example)

subsection \<open>Decoding a sequence\<close>

text \<open>
  The claim C7 says that an empty response to a get-queue request yields an empty cached
  sequence and no error. In the processing loop it yields an error and the cached sequence
  stays as it was: \<^verbatim>\<open>process\<close> takes an empty response for a failed read and never invokes
  the callback.
\<close>

theorem empty_response_counterexample:
  "\<exists>st'. process_iteration example_externals (\<lambda>n. (True, [])) (False, 0)
            (sendGetQueue example_externals 0 25000
              ((constructed 0 0)\<lparr>error_m := False, queue_m := [5, 9, 12]\<rparr>))
          = Inr st'
      \<and> error_m st' \<and> queue_m st' = [5, 9, 12] \<and> \<not> queueChanged_m st'"
proof -
  let ?E = example_externals
  let ?st = "sendGetQueue ?E 0 25000 ((constructed 0 0)\<lparr>error_m := False, queue_m := [5, 9, 12]\<rparr>)"
  have q: "writeQueue ?st
      = (frame ?E Command_GetQueue [size_to_string 0, size_to_string 25000], sendGetQueue_cb) # []"
    and n: "\<not> error_m ?st" and c: "queue_m ?st = [5, 9, 12]" "\<not> queueChanged_m ?st"
    by (simp_all add: sendGetQueue_def addToWriteQueue_def constructed_def)
  from process_iteration_empty_response [OF q n, of "\<lambda>n. (True, [])" ?E "(False, 0)"] c
  show ?thesis
    by auto
qed

text \<open>
  C7, amended. The callbacks of \<^verbatim>\<open>sendGetQueue\<close> and \<^verbatim>\<open>sendGetSubQueue\<close> accept the empty
  text: it yields the empty sequence and sets the dirty flag. The processing loop never
  gives it to them: an empty response sets the error flag and discards the queue of
  requests, and the cached sequences and dirty flags stay as they were. A payload of
  identifiers in decimal, each within \<^verbatim>\<open>int\<close>, with the delimiter between neighbours
  replaces the cached sequence by these identifiers, in order.
\<close>

theorem get_queue_decoding:
  "run_callback E sendGetQueue_cb [] st = Inr (st\<lparr>queue_m := [], queueChanged_m := True\<rparr>)
   \<and> run_callback E sendGetSubQueue_cb [] st
       = Inr (st\<lparr>subQueue_m := [], subQueueChanged_m := True\<rparr>)
   \<and> (writeQueue st = (fr, f) # rest \<and> \<not> error_m st \<and> io (exchanges st) = (True, []) \<longrightarrow>
        (\<exists>st'. process_iteration E io tick st = Inr st' \<and> error_m st' \<and> writeQueue st' = []
           \<and> queue_m st' = queue_m st \<and> subQueue_m st' = subQueue_m st
           \<and> queueChanged_m st' = queueChanged_m st
           \<and> subQueueChanged_m st' = subQueueChanged_m st \<and> fired st' = fired st))
   \<and> (delimiter_ok (Delimiter E) \<and> (\<forall>x \<in> set ids. INT_MIN \<le> x \<and> x \<le> INT_MAX) \<longrightarrow>
        run_callback E sendGetQueue_cb (delimited (Delimiter E) (map to_string ids)) st
          = Inr (st\<lparr>queue_m := ids, queueChanged_m := True\<rparr>)
        \<and> run_callback E sendGetSubQueue_cb (delimited (Delimiter E) (map to_string ids)) st
          = Inr (st\<lparr>subQueue_m := ids, subQueueChanged_m := True\<rparr>))"
proof -
  have "decode_ids E [] = []"
    by (simp add: decode_ids_def c_str_def strtok_all_Nil)
  then have a: "run_callback E sendGetQueue_cb [] st
      = Inr (st\<lparr>queue_m := [], queueChanged_m := True\<rparr>)"
    and b: "run_callback E sendGetSubQueue_cb [] st
      = Inr (st\<lparr>subQueue_m := [], subQueueChanged_m := True\<rparr>)"
    by simp_all
  have c: "\<exists>st'. process_iteration E io tick st = Inr st' \<and> error_m st' \<and> writeQueue st' = []
           \<and> queue_m st' = queue_m st \<and> subQueue_m st' = subQueue_m st
           \<and> queueChanged_m st' = queueChanged_m st
           \<and> subQueueChanged_m st' = subQueueChanged_m st \<and> fired st' = fired st"
    if "writeQueue st = (fr, f) # rest" and "\<not> error_m st" and "io (exchanges st) = (True, [])"
    using that by (rule process_iteration_empty_response)
  have d: "run_callback E sendGetQueue_cb (delimited (Delimiter E) (map to_string ids)) st
          = Inr (st\<lparr>queue_m := ids, queueChanged_m := True\<rparr>)
        \<and> run_callback E sendGetSubQueue_cb (delimited (Delimiter E) (map to_string ids)) st
          = Inr (st\<lparr>subQueue_m := ids, subQueueChanged_m := True\<rparr>)"
    if "delimiter_ok (Delimiter E)" and "\<forall>x \<in> set ids. INT_MIN \<le> x \<and> x \<le> INT_MAX"
    using decode_ids_delimited [OF that] by simp
  from a b c d show ?thesis
    by blast
qed

theorem get_queue_decoding_witness:
  "run_callback example_externals sendGetQueue_cb
     [CHR ''5'', CHR 0x1C, CHR ''9'', CHR 0x1C, CHR ''1'', CHR ''2''] (constructed 0 0)
   = Inr ((constructed 0 0)\<lparr>queue_m := [5, 9, 12], queueChanged_m := True\<rparr>)
   \<and> (\<exists>st'. process_iteration example_externals (\<lambda>n. (True, [])) (True, 1)
               (sendGetSubQueue example_externals 0 5000
                 ((constructed 0 0)\<lparr>error_m := False, subQueue_m := [4]\<rparr>)) = Inr st'
         \<and> error_m st' \<and> writeQueue st' = [] \<and> subQueue_m st' = [4]
         \<and> \<not> subQueueChanged_m st')"
proof -
  have d: "delimiter_ok (Delimiter example_externals)"
    by (simp add: delimiter_ok_def example_externals_def isdigit_def)
  have r: "\<forall>x \<in> set [5, 9, 12 :: int]. INT_MIN \<le> x \<and> x \<le> INT_MAX"
    by (simp add: INT_MIN_def INT_MAX_def)
  have e: "Delimiter example_externals = CHR 0x1C"
    by (simp add: example_externals_def)
  let ?st = "sendGetSubQueue example_externals 0 5000
               ((constructed 0 0)\<lparr>error_m := False, subQueue_m := [4]\<rparr>)"
  let ?fr = "frame example_externals Command_GetSubQueue [size_to_string 0, size_to_string 5000]"
  have q: "writeQueue ?st = (?fr, sendGetSubQueue_cb) # []" and n: "\<not> error_m ?st"
    and s: "subQueue_m ?st = [4]" "\<not> subQueueChanged_m ?st"
    by (simp_all add: sendGetSubQueue_def addToWriteQueue_def constructed_def)
  note t = get_queue_decoding
    [of example_externals _ _ _ _ _ _ "[5, 9, 12]"]
  from t [of "constructed 0 0"] d r
  have "run_callback example_externals sendGetQueue_cb
          (delimited (Delimiter example_externals) (map to_string [5, 9, 12])) (constructed 0 0)
        = Inr ((constructed 0 0)\<lparr>queue_m := [5, 9, 12], queueChanged_m := True\<rparr>)"
    by blast
  then have a: "run_callback example_externals sendGetQueue_cb
     [CHR ''5'', CHR 0x1C, CHR ''9'', CHR 0x1C, CHR ''1'', CHR ''2''] (constructed 0 0)
   = Inr ((constructed 0 0)\<lparr>queue_m := [5, 9, 12], queueChanged_m := True\<rparr>)"
    unfolding e delimited_example .
  from t [of ?st ?fr sendGetSubQueue_cb "[]" "\<lambda>n. (True, [])" "(True, 1)"] q n
  have "\<exists>st'. process_iteration example_externals (\<lambda>n. (True, [])) (True, 1) ?st = Inr st'
          \<and> error_m st' \<and> writeQueue st' = [] \<and> subQueue_m st' = subQueue_m ?st
          \<and> subQueueChanged_m st' = subQueueChanged_m ?st"
    by auto
  then have b: "\<exists>st'. process_iteration example_externals (\<lambda>n. (True, [])) (True, 1) ?st
          = Inr st'
          \<and> error_m st' \<and> writeQueue st' = [] \<and> subQueue_m st' = [4]
          \<and> \<not> subQueueChanged_m st'"
    by (simp add: s)
  from a b show ?thesis
    by blast
qed

subsection \<open>The blocking helpers and the error flag\<close>

text \<open>
  C8. \<^verbatim>\<open>waitReset\<close> does not look at the error flag. Called when the flag is set, so that
  its request is dropped, or called with an empty queue when the exchange for its request
  then fails, so that the request is discarded, it never returns: its callback is never
  invoked. \<^verbatim>\<open>waitSongIdx\<close>, which checks the flag after each sleep, returns the largest
  \<^verbatim>\<open>size_t\<close> in both cases.
\<close>

theorem waitReset_blocks_on_error:
  assumes "error_m st
           \<or> (writeQueue st = [] \<and> \<not> exit_m st
               \<and> (\<not> fst (io (exchanges st)) \<or> snd (io (exchanges st)) = []))"
    and "k \<notin> done_flags st"
  shows "waitReset E io tick k st = None \<and> waitSongIdx E io tick k st = Some SIZE_MAX"
proof (cases "error_m st")
  case True
  have r: "waitReset_request E k st = st" and s: "waitSongIdx_request E k st = st"
    using True by (simp_all add: waitReset_request_def waitSongIdx_request_def
        addToWriteQueue_def)
  have v: "state_of (rounds E io tick i st) = st" for i
    using rounds_error [OF True, of E io tick i] by (simp add: state_of_def)
  have "waitReset_poll (\<lambda>i. st) k 0 = None"
    using assms(2) by (intro waitReset_poll_never) simp
  moreover have "waitSongIdx_poll (\<lambda>i. st) k 0 = Some SIZE_MAX"
    using True assms(2) by (simp add: waitSongIdx_poll.simps [of "\<lambda>i. st" k 0])
  ultimately show ?thesis
    by (simp add: waitReset_def waitSongIdx_def r s v)
next
  case False
  with assms(1) have q: "writeQueue st = []" and x: "\<not> exit_m st"
    and fl: "\<not> fst (io (exchanges st)) \<or> snd (io (exchanges st)) = []"
    by simp_all
  have *: "waitReset_poll (\<lambda>i. state_of (rounds E io tick i st0)) k 0 = None
      \<and> waitSongIdx_poll (\<lambda>i. state_of (rounds E io tick i st0)) k 0 = Some SIZE_MAX"
    if w: "writeQueue st0 = [(fr, f)]" and e: "\<not> error_m st0" and x0: "\<not> exit_m st0"
      and d: "done_flags st0 = done_flags st" and n: "exchanges st0 = exchanges st"
    for st0 fr f
  proof -
    let ?view = "\<lambda>i. state_of (rounds E io tick i st0)"
    from fl n have fl0: "\<not> fst (io (exchanges st0)) \<or> snd (io (exchanges st0)) = []"
      by simp
    have a: "error_m (?view (Suc i)) \<and> done_flags (?view (Suc i)) = done_flags st" for i
      using rounds_after_failure [of st0 fr f "[]" io E tick i, OF w e x0 fl0] d
      by (auto simp add: state_of_def)
    have b: "k \<notin> done_flags (?view j)" for j
    proof (cases j)
      case 0
      with d assms(2) show ?thesis
        by (simp add: state_of_def)
    next
      case (Suc i)
      with a [of i] assms(2) show ?thesis
        by simp
    qed
    have "waitReset_poll ?view k 0 = None"
      using b by (rule waitReset_poll_never)
    moreover have "waitSongIdx_poll ?view k 0 = Some SIZE_MAX"
      using b [of 0] a [of 0] by (simp add: waitSongIdx_poll.simps [of ?view k 0])
    ultimately show ?thesis
      by simp
  qed
  have "waitReset_poll (\<lambda>i. state_of (rounds E io tick i (waitReset_request E k st))) k 0 = None"
    using * [of "waitReset_request E k st" "frame E Command_Reset []" "waitReset_cb k"]
      False q x
    by (simp add: waitReset_request_def addToWriteQueue_def)
  moreover
  have "waitSongIdx_poll (\<lambda>i. state_of (rounds E io tick i (waitSongIdx_request E k st))) k 0
          = Some SIZE_MAX"
    using * [of "waitSongIdx_request E k st" "frame E Command_QueueIdx []" "waitSongIdx_cb k"]
      False q x
    by (simp add: waitSongIdx_request_def addToWriteQueue_def)
  ultimately show ?thesis
    by (simp add: waitReset_def waitSongIdx_def)
qed

theorem waitReset_blocks_on_error_witness:
  "waitReset example_externals (\<lambda>n. (True, ''1'')) (\<lambda>i. (True, i)) 0 (constructed 0 0) = None
   \<and> waitSongIdx example_externals (\<lambda>n. (True, ''1'')) (\<lambda>i. (True, i)) 0 (constructed 0 0)
       = Some SIZE_MAX"
  using waitReset_blocks_on_error
    [of "constructed 0 0" "\<lambda>n. (True, ''1'')" 0 example_externals  "\<lambda>i. (True, i)"]
  by (simp add: constructed_def)

subsection \<open>Who writes the cached state\<close>

text \<open>
  The claim C9 says that no request builder writes the cached state on the caller's
  thread. \<^verbatim>\<open>sendSetPosition\<close> does: it assigns \<^verbatim>\<open>position_\<close> before it queues its request.
\<close>

theorem direct_write_counterexample:
  "cached (call example_externals (Call_sendSetPosition (Finite 5)) (constructed 0 0))
     \<noteq> cached (constructed 0 0)"
  by (simp add: sendSetPosition_def addToWriteQueue_def cached_def constructed_def)

text \<open>
  C9, amended. Every request builder other than \<^verbatim>\<open>sendSetPosition\<close> leaves the cached
  state as it is when called; \<^verbatim>\<open>sendSetPosition\<close> assigns the position it is given and
  nothing else of the cached state. The accessors of the dirty flags, \<^verbatim>\<open>exit\<close>, the
  polls of the refresh, \<^verbatim>\<open>reconnect\<close> and a round of the inner loop whose exchange
  fails leave the cached state as it is: apart from \<^verbatim>\<open>sendSetPosition\<close>, only a callback
  invoked by the processing loop changes it.
\<close>

theorem cached_state_at_call:
  "((\<forall>pos. req \<noteq> Call_sendSetPosition pos) \<longrightarrow> cached (call E req st) = cached st)
   \<and> cached (call E (Call_sendSetPosition pos) st) = cached (st\<lparr>position_m := pos\<rparr>)
   \<and> position_m (call E (Call_sendSetPosition pos) st) = pos
   \<and> cached (snd (queueChanged st)) = cached st
   \<and> cached (snd (subQueueChanged st)) = cached st
   \<and> cached (exit_request st) = cached st
   \<and> cached (refresh E now st) = cached st
   \<and> cached (state_of (reconnect E fd str st)) = cached st
   \<and> ((\<not> fst x \<or> snd x = []) \<longrightarrow> cached (state_of (drain_step E x f st)) = cached st)"
proof -
  have "cached (state_of (drain_step E x f st)) = cached st" if "\<not> fst x \<or> snd x = []"
    using drain_step_fail [OF that] by (simp add: state_of_def cached_def)
  moreover have "position_m (call E (Call_sendSetPosition pos) st) = pos"
    by (simp add: sendSetPosition_def addToWriteQueue_def)
  moreover have "cached (snd (queueChanged st)) = cached st"
    and "cached (snd (subQueueChanged st)) = cached st"
    and "cached (exit_request st) = cached st"
    by (simp_all add: queueChanged_def subQueueChanged_def exit_request_def cached_def)
  ultimately show ?thesis
    using call_cached [of req E st] sendSetPosition_cached [of E pos st]
      refresh_cached [of E now st] reconnect_cached [of E fd str st]
    by simp
qed

theorem cached_state_at_call_witness:
  "cached (call example_externals (Call_sendSetVolume (Finite 30)) (constructed 0 0))
     = cached (constructed 0 0)
   \<and> position_m (call example_externals (Call_sendSetPosition (Finite 5)) (constructed 0 0))
     = Finite 5
   \<and> cached (state_of (drain_step example_externals (False, []) sendGetSong_cb (constructed 0 0)))
     = cached (constructed 0 0)"
  using cached_state_at_call
    [of "Call_sendSetVolume (Finite 30)" example_externals "constructed 0 0" "Finite 5"
      _ _ _ "(False, [])" sendGetSong_cb]
  by simp

subsection \<open>The state after construction\<close>

text \<open>
  C10. When the constructor returns, the cached state is the one it assigned: no song
  (\<open>-1\<close>), position 0, volume 100, stopped, repeat and shuffle off, index 0, queue size 0,
  both queues empty, both dirty flags clear. The error flag is set before the handshake
  and is clear afterwards exactly when the response to the version query is the client's
  version. The constructor assigns nothing to \<^verbatim>\<open>subQueueSize_\<close>: the member keeps the
  value \<open>unassigned\<close>, whatever that is.
\<close>

theorem constructor_defaults:
  assumes "Sysmodule E now unassigned fd str = Inr st"
  shows "currentSong_m st = - 1 \<and> position_m st = Finite 0 \<and> volume_m st = Finite 100
         \<and> status_m st = PlaybackStatus_Stopped \<and> repeatMode_m st = RepeatMode_Off
         \<and> shuffleMode_m st = ShuffleMode_Off \<and> songIdx_m st = 0 \<and> queueSize_m st = 0
         \<and> subQueueSize_m st = unassigned
         \<and> queue_m st = [] \<and> subQueue_m st = []
         \<and> \<not> queueChanged_m st \<and> \<not> subQueueChanged_m st
         \<and> error_m (constructed now unassigned)
         \<and> (error_m st \<longleftrightarrow> stoi str \<noteq> Inr (Version E))"
  unfolding Sysmodule_Inr [OF assms]
  by (simp add: sendGetQueue_def sendGetSubQueue_def addToWriteQueue_def constructed_def)

theorem constructor_defaults_witness:
  "\<exists>st. Sysmodule example_externals 0 7 3 ''1'' = Inr st
      \<and> queueSize_m st = 0 \<and> subQueueSize_m st = 7 \<and> \<not> error_m st"
proof -
  have s: "Sysmodule example_externals 0 7 3 ''1''
     = Inr (sendGetSubQueue example_externals 0 5000
             (sendGetQueue example_externals 0 25000
               ((constructed 0 7)\<lparr>socket := 3, error_m := False\<rparr>)))"
    by (simp add: Sysmodule_def reconnect_def conversion_defs example_externals_def)
  have v: "stoi ''1'' = Inr (Version example_externals)"
    by (simp add: conversion_defs example_externals_def)
  from constructor_defaults [OF s] v show ?thesis
    using s by simp
qed

end
